theory Spec2Isabelle
  imports Complex_Main
begin

section \<open>HTTP responses shared by the middleware\<close>

text \<open>
  A middleware either answers the request itself,
  \<^verbatim>\<open>res.status(c).json({success: false, message: m})\<close>, or hands over to the next
  handler with \<^verbatim>\<open>next()\<close>.
\<close>

record response =
  status :: nat
  success :: bool
  message :: string

definition reject :: "nat \<Rightarrow> string \<Rightarrow> response" where
  "reject c m = \<lparr>status = c, success = False, message = m\<rparr>"

section \<open>Rate limiting for sensitive operations (src/middleware/auth.js, 136--161)\<close>

text \<open>
  \<^verbatim>\<open>global.rateLimitStore\<close> is a \<^verbatim>\<open>Map\<close> from the key to an array of
  \<^verbatim>\<open>Date.now()\<close> readings (integer milliseconds); before the first call it does not
  exist (\<open>None\<close>) and the call creates it empty.
\<close>

type_synonym rateLimitStore = "(string \<rightharpoonup> int list) option"

definition windowMs :: int where
  "windowMs = 15 * 60 * 1000"

definition maxAttempts :: nat where
  "maxAttempts = 5"

text \<open>\<^verbatim>\<open>global.rateLimitStore.get(key) || []\<close>: an array is always truthy.\<close>

definition userAttempts :: "rateLimitStore \<Rightarrow> string \<Rightarrow> int list" where
  "userAttempts g key =
     (case g of None \<Rightarrow> [] | Some m \<Rightarrow> (case m key of None \<Rightarrow> [] | Some ts \<Rightarrow> ts))"

text \<open>\<^verbatim>\<open>userAttempts.filter(time => now - time < windowMs)\<close>\<close>

definition recentAttempts :: "rateLimitStore \<Rightarrow> string \<Rightarrow> int \<Rightarrow> int list" where
  "recentAttempts g key now = filter (\<lambda>time. now - time < windowMs) (userAttempts g key)"

text \<open>
  The middleware for the key \<^verbatim>\<open>`${req.ip}_${req.user?.id || 'anonymous'}`\<close> at clock
  reading \<open>now\<close>. The result is \<open>Inr ()\<close> for \<^verbatim>\<open>next()\<close> and \<open>Inl r\<close> for
  the 429 answer, paired with the store the call leaves behind: a refused call creates
  the map when it is missing and writes nothing else.
\<close>

definition sensitiveOperationLimit ::
  "string \<Rightarrow> int \<Rightarrow> rateLimitStore \<Rightarrow> (response + unit) \<times> rateLimitStore" where
  "sensitiveOperationLimit key now g =
     (let m = (case g of None \<Rightarrow> Map.empty | Some m \<Rightarrow> m);
          recent = recentAttempts (Some m) key now
      in if length recent \<ge> maxAttempts
         then (Inl (reject 429 ''Too many attempts. Please try again later.''), Some m)
         else (Inr (), Some (m(key \<mapsto> recent @ [now]))))"

text \<open>The spec's \<open>allow(key)\<close>: whether the call reached \<^verbatim>\<open>next()\<close>.\<close>

definition allow :: "string \<Rightarrow> int \<Rightarrow> rateLimitStore \<Rightarrow> bool \<times> rateLimitStore" where
  "allow key now g = (case sensitiveOperationLimit key now g of (r, g') \<Rightarrow> (\<not> isl r, g'))"

text \<open>A run of calls, each with its key and its clock reading, oldest first.\<close>

fun allow_run :: "(string \<times> int) list \<Rightarrow> rateLimitStore \<Rightarrow> bool list \<times> rateLimitStore" where
  "allow_run [] g = ([], g)"
| "allow_run ((key, now) # cs) g =
     (let r = allow key now g; rs = allow_run cs (snd r) in (fst r # fst rs, snd rs))"

declare allow_run.simps(2) [simp del]

section \<open>JSON text, as \<^verbatim>\<open>JSON.parse\<close> reads it\<close>

text \<open>
  Strings are \<^typ>\<open>string\<close>, and stand for well-formed text. An ASCII character
  is its own \<^typ>\<open>char\<close>; a character beyond ASCII is the bytes of its UTF-8 form,
  which neither the codec nor the JSON grammar ever inspects (every structural
  character, every digit and the letters of \<^verbatim>\<open>QR\<close> are ASCII).

  A parsed value keeps a number as the exact value of its literal. JavaScript rounds
  that value to a double; the only place where the codec looks at a number is its
  truthiness, and the rounding is taken into account there (see \<open>truthy\<close>).
  An object keeps its members in source order, duplicates included.
\<close>

datatype json =
    JNull
  | JBool bool
  | JNum rat
  | JStr string
  | JArr "json list"
  | JObj "(string \<times> json) list"

subsection \<open>Characters\<close>

definition is_digit :: "char \<Rightarrow> bool" where
  "is_digit c = (48 \<le> (of_char c :: nat) \<and> (of_char c :: nat) \<le> 57)"

definition digit_val :: "char \<Rightarrow> nat" where
  "digit_val c = of_char c - 48"

definition digits_val :: "string \<Rightarrow> nat" where
  "digits_val ds = foldl (\<lambda>a c. 10 * a + digit_val c) 0 ds"

definition hex_val :: "char \<Rightarrow> nat option" where
  "hex_val c =
     (let n = (of_char c :: nat)
      in if 48 \<le> n \<and> n \<le> 57 then Some (n - 48)
         else if 97 \<le> n \<and> n \<le> 102 then Some (n - 87)
         else if 65 \<le> n \<and> n \<le> 70 then Some (n - 55)
         else None)"

definition hex4 :: "char \<Rightarrow> char \<Rightarrow> char \<Rightarrow> char \<Rightarrow> nat option" where
  "hex4 a b c d =
     (case (hex_val a, hex_val b, hex_val c, hex_val d) of
        (Some w, Some x, Some y, Some z) \<Rightarrow> Some (4096 * w + 256 * x + 16 * y + z)
      | _ \<Rightarrow> None)"

text \<open>The bytes that stand for the code unit a \<^verbatim>\<open>\uXXXX\<close> escape names.\<close>

definition utf8 :: "nat \<Rightarrow> string" where
  "utf8 n =
     (if n < 128 then [char_of n]
      else if n < 2048 then [char_of (192 + n div 64), char_of (128 + n mod 64)]
      else [char_of (224 + n div 4096), char_of (128 + n div 64 mod 64), char_of (128 + n mod 64)])"

subsection \<open>String literals\<close>

text \<open>The character after a backslash, for the eight one-letter escapes.\<close>

definition unescape :: "char \<Rightarrow> char option" where
  "unescape e =
     (if e = CHR 0x22 then Some (CHR 0x22)
      else if e = CHR 0x5C then Some (CHR 0x5C)
      else if e = CHR ''/'' then Some (CHR ''/'')
      else if e = CHR ''b'' then Some (CHR 0x08)
      else if e = CHR ''f'' then Some (CHR 0x0C)
      else if e = CHR ''n'' then Some (CHR 0x0A)
      else if e = CHR ''r'' then Some (CHR 0x0D)
      else if e = CHR ''t'' then Some (CHR 0x09)
      else None)"

text \<open>
  What follows a backslash: the characters it stands for and how many characters of the
  input the escape takes (one letter, or \<open>u\<close> and four hexadecimal digits).
\<close>

definition escape :: "string \<Rightarrow> (string \<times> nat) option" where
  "escape cs =
     (case cs of
        [] \<Rightarrow> None
      | e # es \<Rightarrow>
          if e = CHR ''u'' then
            (if length es < 4 then None
             else map_option (\<lambda>n. (utf8 n, 5)) (hex4 (es ! 0) (es ! 1) (es ! 2) (es ! 3)))
          else map_option (\<lambda>ch. ([ch], 1)) (unescape e))"

text \<open>
  The body of a string literal, read from just after the opening quote up to the closing
  one: the string it denotes and the rest of the input. A control character (below
  0x20), a bad escape or a missing closing quote is a syntax error.
\<close>

fun lex_string :: "string \<Rightarrow> (string \<times> string) option" where
  "lex_string [] = None"
| "lex_string (c # cs) =
     (if c = CHR 0x22 then Some ([], cs)
      else if c = CHR 0x5C then
        (case escape cs of
           None \<Rightarrow> None
         | Some (d, n) \<Rightarrow> map_option (\<lambda>(s, r). (d @ s, r)) (lex_string (drop n cs)))
      else if (of_char c :: nat) < 32 then None
      else map_option (\<lambda>(s, r). (c # s, r)) (lex_string cs))"

subsection \<open>Number literals\<close>

definition pow10 :: "int \<Rightarrow> rat" where
  "pow10 e = (if 0 \<le> e then 10 ^ nat e else 1 / 10 ^ nat (- e))"

definition number_value :: "bool \<Rightarrow> string \<Rightarrow> string \<Rightarrow> int \<Rightarrow> rat" where
  "number_value neg ds fs e =
     (if neg then - 1 else 1) * of_nat (digits_val (ds @ fs)) * pow10 (e - int (length fs))"

text \<open>The integer part: a single \<open>0\<close>, or a run of digits that does not start with \<open>0\<close>.\<close>

definition lex_int :: "string \<Rightarrow> (string \<times> string) option" where
  "lex_int s =
     (case s of
        [] \<Rightarrow> None
      | c # cs \<Rightarrow>
          if c = CHR ''0'' then Some ([c], cs)
          else if is_digit c then Some (takeWhile is_digit s, dropWhile is_digit s)
          else None)"

text \<open>The optional fraction: a dot and at least one digit.\<close>

definition lex_frac :: "string \<Rightarrow> (string \<times> string) option" where
  "lex_frac s =
     (case s of
        c # cs \<Rightarrow>
          if c = CHR ''.'' then
            (if takeWhile is_digit cs = [] then None
             else Some (takeWhile is_digit cs, dropWhile is_digit cs))
          else Some ([], s)
      | [] \<Rightarrow> Some ([], s))"

text \<open>The optional exponent: \<open>e\<close> or \<open>E\<close>, an optional sign and at least one digit.\<close>

definition lex_exp :: "string \<Rightarrow> (int \<times> string) option" where
  "lex_exp s =
     (case s of
        c # cs \<Rightarrow>
          if c = CHR ''e'' \<or> c = CHR ''E'' then
            (let (neg, r) =
               (case cs of
                  d # ds \<Rightarrow>
                    if d = CHR ''-'' then (True, ds)
                    else if d = CHR ''+'' then (False, ds)
                    else (False, cs)
                | [] \<Rightarrow> (False, cs))
             in if takeWhile is_digit r = [] then None
                else Some ((if neg then - 1 else 1) * int (digits_val (takeWhile is_digit r)),
                           dropWhile is_digit r))
          else Some (0, s)
      | [] \<Rightarrow> Some (0, s))"

definition lex_number :: "string \<Rightarrow> (rat \<times> string) option" where
  "lex_number s =
     (let (neg, s1) =
        (case s of
           c # cs \<Rightarrow> if c = CHR ''-'' then (True, cs) else (False, s)
         | [] \<Rightarrow> (False, s))
      in case lex_int s1 of
           None \<Rightarrow> None
         | Some (ds, s2) \<Rightarrow>
             (case lex_frac s2 of
                None \<Rightarrow> None
              | Some (fs, s3) \<Rightarrow>
                  (case lex_exp s3 of
                     None \<Rightarrow> None
                   | Some (e, s4) \<Rightarrow> Some (number_value neg ds fs e, s4))))"

subsection \<open>Tokens\<close>

datatype token = TLBrace | TRBrace | TLBracket | TRBracket | TColon | TComma | TAtom json

text \<open>JSON white space: space, tab, line feed, carriage return.\<close>

definition is_ws :: "char \<Rightarrow> bool" where
  "is_ws c = (c = CHR '' '' \<or> c = CHR 0x09 \<or> c = CHR 0x0A \<or> c = CHR 0x0D)"

definition emit :: "token \<Rightarrow> token list option \<Rightarrow> token list option" where
  "emit t r = map_option ((#) t) r"

definition lex_literal :: "string \<Rightarrow> (json \<times> string) option" where
  "lex_literal s =
     (if take 4 s = ''true'' then Some (JBool True, drop 4 s)
      else if take 5 s = ''false'' then Some (JBool False, drop 5 s)
      else if take 4 s = ''null'' then Some (JNull, drop 4 s)
      else None)"

definition punct :: "char \<Rightarrow> token option" where
  "punct c =
     (if c = CHR ''{'' then Some TLBrace
      else if c = CHR ''}'' then Some TRBrace
      else if c = CHR ''['' then Some TLBracket
      else if c = CHR '']'' then Some TRBracket
      else if c = CHR '':'' then Some TColon
      else if c = CHR '','' then Some TComma
      else None)"

text \<open>The token at the head of an input that does not start with white space.\<close>

definition scan :: "string \<Rightarrow> (token \<times> string) option" where
  "scan s =
     (case s of
        [] \<Rightarrow> None
      | c # cs \<Rightarrow>
          (case punct c of
             Some t \<Rightarrow> Some (t, cs)
           | None \<Rightarrow>
               if c = CHR 0x22 then
                 map_option (\<lambda>(x, rest). (TAtom (JStr x), rest)) (lex_string cs)
               else if c = CHR ''-'' \<or> is_digit c then
                 map_option (\<lambda>(r, rest). (TAtom (JNum r), rest)) (lex_number s)
               else map_option (\<lambda>(v, rest). (TAtom v, rest)) (lex_literal s)))"

function tokenize :: "string \<Rightarrow> token list option" where
  "tokenize [] = Some []"
| "tokenize (c # cs) =
     (if is_ws c then tokenize cs
      else case scan (c # cs) of
             None \<Rightarrow> None
           | Some (t, rest) \<Rightarrow> emit t (tokenize rest))"
  by pat_completeness auto
termination
proof (relation "measure length")
  have str: "length r \<le> length s" if "lex_string s = Some (x, r)" for s x r
    using that
  proof (induction s arbitrary: x rule: lex_string.induct)
    case 1
    then show ?case by simp
  next
    case (2 c cs)
    show ?case
    proof (cases "c = CHR 0x22")
      case True
      with 2 show ?thesis by simp
    next
      case nq: False
      show ?thesis
      proof (cases "c = CHR 0x5C")
        case True
        with nq 2(3) obtain d n y
          where e: "escape cs = Some (d, n)" and l: "lex_string (drop n cs) = Some (y, r)"
          by (auto split: option.splits)
        from 2(1) [OF nq True e refl l] show ?thesis by simp
      next
        case False
        with nq 2(3) obtain y
          where c: "\<not> (of_char c :: nat) < 32" and l: "lex_string cs = Some (y, r)"
          by (auto split: if_splits)
        from 2(2) [OF nq False c l] show ?thesis by simp
      qed
    qed
  qed
  have dw: "length (dropWhile is_digit t) \<le> length t" for t
    by (rule length_dropWhile_le)
  have li: "length r < length s" if "lex_int s = Some (x, r)" for s x r
  proof (cases s)
    case Nil
    with that show ?thesis by (simp add: lex_int_def)
  next
    case (Cons c cs)
    with that dw [of cs] show ?thesis
      by (auto simp: lex_int_def split: if_splits)
  qed
  have lf: "length r \<le> length s" if "lex_frac s = Some (x, r)" for s x r
  proof (cases s)
    case Nil
    with that show ?thesis by (simp add: lex_frac_def)
  next
    case (Cons c cs)
    with that dw [of cs] show ?thesis
      by (auto simp: lex_frac_def split: if_splits)
  qed
  have le: "length r \<le> length s" if "lex_exp s = Some (x, r)" for s x r
  proof (cases s)
    case Nil
    with that show ?thesis by (simp add: lex_exp_def)
  next
    case (Cons c cs)
    show ?thesis
    proof (cases cs)
      case Nil
      with that Cons show ?thesis by (auto simp: lex_exp_def split: if_splits)
    next
      case (Cons d ds)
      with that \<open>s = c # cs\<close> dw [of cs] dw [of ds] show ?thesis
        by (auto simp: lex_exp_def split: if_splits)
    qed
  qed
  have num: "length r < length s" if "lex_number s = Some (x, r)" for s x r
  proof -
    obtain neg s1 where s1:
      "(case s of c # cs \<Rightarrow> if c = CHR ''-'' then (True, cs) else (False, s)
        | [] \<Rightarrow> (False, s)) = (neg, s1)"
      by (cases "(case s of c # cs \<Rightarrow> if c = CHR ''-'' then (True, cs) else (False, s)
                  | [] \<Rightarrow> (False, s))")
    then have a: "length s1 \<le> length s" by (auto split: list.splits if_splits)
    from that s1 obtain ds s2 fs s3 e where
      "lex_int s1 = Some (ds, s2)" "lex_frac s2 = Some (fs, s3)" "lex_exp s3 = Some (e, r)"
      by (auto simp: lex_number_def split: option.splits)
    with li lf le a show ?thesis by fastforce
  qed
  have lit: "length r < length s" if "lex_literal s = Some (x, r)" for s x r
  proof -
    from that have "s \<noteq> []" by (auto simp: lex_literal_def)
    moreover from that have "r = drop 4 s \<or> r = drop 5 s"
      by (auto simp: lex_literal_def split: if_splits)
    ultimately show ?thesis by auto
  qed
  have sc: "length r < length (c # cs)" if h: "scan (c # cs) = Some (t, r)" for c cs t r
  proof -
    consider (p) "r = cs" | (s) x where "lex_string cs = Some (x, r)"
      | (n) x where "lex_number (c # cs) = Some (x, r)"
      | (l) x where "lex_literal (c # cs) = Some (x, r)"
      using h unfolding scan_def list.case
      by (cases "punct c") (auto split: if_splits)
    then show ?thesis
    proof cases
      case p
      then show ?thesis by simp
    next
      case s
      from str [OF this] show ?thesis by simp
    next
      case n
      from num [OF this] show ?thesis .
    next
      case l
      from lit [OF this] show ?thesis .
    qed
  qed
  show "wf (measure length)" by simp
  show "(cs, c # cs) \<in> measure length" if "is_ws c" for c :: char and cs
    by simp
  show "(y, c # cs) \<in> measure length"
    if "\<not> is_ws c" and "scan (c # cs) = Some x2" and "(x, y) = x2" for c cs x2 x y
    using sc [of c cs x y] that by simp
qed

subsection \<open>The grammar, as a pushdown automaton over the tokens\<close>

text \<open>
  A frame is a container that is still open and waits for a value: an array with the
  elements read so far, or an object with the members read so far and the key of the
  member being read.
\<close>

datatype frame = FArr "json list" | FObj "(string \<times> json) list" string

datatype pstate =
    PValue "frame list"
  | PArrFirst "frame list"
  | PArrNext "json list" "frame list"
  | PObjFirst "frame list"
  | PObjKey "(string \<times> json) list" "frame list"
  | PObjColon "(string \<times> json) list" string "frame list"
  | PObjNext "(string \<times> json) list" "frame list"
  | PDone json

text \<open>A finished value goes to the innermost open container, or ends the text.\<close>

fun deliver :: "json \<Rightarrow> frame list \<Rightarrow> pstate" where
  "deliver v [] = PDone v"
| "deliver v (FArr acc # st) = PArrNext (acc @ [v]) st"
| "deliver v (FObj acc k # st) = PObjNext (acc @ [(k, v)]) st"

fun start_value :: "token \<Rightarrow> frame list \<Rightarrow> pstate option" where
  "start_value (TAtom v) st = Some (deliver v st)"
| "start_value TLBracket st = Some (PArrFirst st)"
| "start_value TLBrace st = Some (PObjFirst st)"
| "start_value _ st = None"

fun step :: "pstate \<Rightarrow> token \<Rightarrow> pstate option" where
  "step (PValue st) t = start_value t st"
| "step (PArrFirst st) t =
     (if t = TRBracket then Some (deliver (JArr []) st) else start_value t (FArr [] # st))"
| "step (PArrNext acc st) t =
     (if t = TComma then Some (PValue (FArr acc # st))
      else if t = TRBracket then Some (deliver (JArr acc) st)
      else None)"
| "step (PObjFirst st) t =
     (case t of
        TRBrace \<Rightarrow> Some (deliver (JObj []) st)
      | TAtom (JStr k) \<Rightarrow> Some (PObjColon [] k st)
      | _ \<Rightarrow> None)"
| "step (PObjKey acc st) t =
     (case t of TAtom (JStr k) \<Rightarrow> Some (PObjColon acc k st) | _ \<Rightarrow> None)"
| "step (PObjColon acc k st) t =
     (if t = TColon then Some (PValue (FObj acc k # st)) else None)"
| "step (PObjNext acc st) t =
     (if t = TComma then Some (PObjKey acc st)
      else if t = TRBrace then Some (deliver (JObj acc) st)
      else None)"
| "step (PDone v) t = None"

fun run_tokens :: "pstate \<Rightarrow> token list \<Rightarrow> pstate option" where
  "run_tokens s [] = Some s"
| "run_tokens s (t # ts) = (case step s t of None \<Rightarrow> None | Some s' \<Rightarrow> run_tokens s' ts)"

text \<open>\<^verbatim>\<open>JSON.parse(text)\<close>; \<open>None\<close> is the SyntaxError it throws.\<close>

definition JSON_parse :: "string \<Rightarrow> json option" where
  "JSON_parse text =
     (case tokenize text of
        None \<Rightarrow> None
      | Some ts \<Rightarrow>
          (case run_tokens (PValue []) ts of Some (PDone v) \<Rightarrow> Some v | _ \<Rightarrow> None))"

subsection \<open>JSON text, as \<^verbatim>\<open>JSON.stringify\<close> writes it\<close>

definition hex_digit :: "nat \<Rightarrow> char" where
  "hex_digit n = (if n < 10 then char_of (48 + n) else char_of (87 + n))"

text \<open>
  One character of a quoted string: the short escapes, \<^verbatim>\<open>\u00XX\<close> for the other
  control characters, the character itself otherwise.
\<close>

definition quote_char :: "char \<Rightarrow> string" where
  "quote_char c =
     (if c = CHR 0x08 then [CHR 0x5C, CHR ''b'']
      else if c = CHR 0x09 then [CHR 0x5C, CHR ''t'']
      else if c = CHR 0x0A then [CHR 0x5C, CHR ''n'']
      else if c = CHR 0x0C then [CHR 0x5C, CHR ''f'']
      else if c = CHR 0x0D then [CHR 0x5C, CHR ''r'']
      else if c = CHR 0x22 then [CHR 0x5C, CHR 0x22]
      else if c = CHR 0x5C then [CHR 0x5C, CHR 0x5C]
      else if (of_char c :: nat) < 32 then
        [CHR 0x5C, CHR ''u'', CHR ''0'', CHR ''0'',
         hex_digit (of_char c div 16), hex_digit (of_char c mod 16)]
      else [c])"

definition quote :: "string \<Rightarrow> string" where
  "quote s = CHR 0x22 # concat (map quote_char s) @ [CHR 0x22]"

text \<open>
  The decimal form of an integer, which is how a JavaScript number that is an integer
  below \<open>10\<^sup>2\<^sup>1\<close> in magnitude prints.
\<close>

function show_nat :: "nat \<Rightarrow> string" where
  "show_nat n =
     (if n < 10 then [char_of (48 + n)] else show_nat (n div 10) @ [char_of (48 + n mod 10)])"
  by pat_completeness auto
termination
  by (relation "measure id") auto

declare show_nat.simps [simp del]

definition show_int :: "int \<Rightarrow> string" where
  "show_int i = (if i < 0 then CHR ''-'' # show_nat (nat (- i)) else show_nat (nat i))"

text \<open>
  What follows a number inside a serialised object: a comma, a closing brace, or the end
  of the text.
\<close>

definition number_stop :: "string \<Rightarrow> bool" where
  "number_stop t = (case t of [] \<Rightarrow> True | c # _ \<Rightarrow> c = CHR '','' \<or> c = CHR ''}'')"

text \<open>
  An object literal whose property values are already serialised: the members in
  insertion order, separated by commas, no white space.
\<close>

fun stringify_members :: "(string \<times> string) list \<Rightarrow> string" where
  "stringify_members [] = []"
| "stringify_members [(k, v)] = quote k @ '':'' @ v"
| "stringify_members ((k, v) # m # ms) = quote k @ '':'' @ v @ '','' @ stringify_members (m # ms)"

definition stringify_object :: "(string \<times> string) list \<Rightarrow> string" where
  "stringify_object ms = ''{'' @ stringify_members ms @ ''}''"

subsection \<open>Reading a parsed value\<close>

text \<open>
  \<^verbatim>\<open>data.k\<close> for a value that is not \<^verbatim>\<open>null\<close>, for the property names the code
  reads (none of them is inherited from a prototype): the last member of that name of an
  object, \<^verbatim>\<open>undefined\<close> for everything else.
\<close>

datatype jsval = Undefined | Val json

fun get_member :: "json \<Rightarrow> string \<Rightarrow> jsval" where
  "get_member (JObj kvs) k = (case map_of (rev kvs) k of None \<Rightarrow> Undefined | Some v \<Rightarrow> Val v)"
| "get_member _ k = Undefined"

text \<open>
  Truthiness. A number literal is falsy when the double it rounds to is zero, which is
  when its magnitude is at most \<open>2\<^sup>-\<^sup>1\<^sup>0\<^sup>7\<^sup>5\<close>, half the least positive double.
\<close>

fun truthy :: "jsval \<Rightarrow> bool" where
  "truthy Undefined = False"
| "truthy (Val JNull) = False"
| "truthy (Val (JBool b)) = b"
| "truthy (Val (JNum r)) = (\<not> \<bar>r\<bar> \<le> 1 / 2 ^ 1075)"
| "truthy (Val (JStr s)) = (s \<noteq> [])"
| "truthy (Val (JArr _)) = True"
| "truthy (Val (JObj _)) = True"

text \<open>\<^verbatim>\<open>a && b\<close>\<close>

definition and_and :: "jsval \<Rightarrow> jsval \<Rightarrow> jsval" where
  "and_and a b = (if truthy a then b else a)"

section \<open>The QR payload codec (src/unnamed/part\_000, 69--140)\<close>

text \<open>
  \<^verbatim>\<open>createProfileQRData(profileId, profileName)\<close>. The profile id is the integer key
  of the profile row, the name a string; the third argument is the reading of
  \<^verbatim>\<open>new Date().toISOString()\<close>.
\<close>

definition createProfileQRData :: "int \<Rightarrow> string \<Rightarrow> string \<Rightarrow> string" where
  "createProfileQRData profileId profileName timestamp =
     stringify_object
       [(''type'', quote ''profile''),
        (''id'', show_int profileId),
        (''name'', quote profileName),
        (''timestamp'', quote timestamp),
        (''app'', quote ''lansia-health'')]"

text \<open>
  The two regular expressions of the legacy format: \<open>legacy_exact\<close> is the anchored
  one of \<^verbatim>\<open>parseQRData\<close> (the whole string is \<open>QR\<close> and one or more digits),
  \<open>legacy_prefix\<close> the one of \<^verbatim>\<open>validateQRFormat\<close>, which has no end anchor.
\<close>

definition legacy_exact :: "string \<Rightarrow> bool" where
  "legacy_exact s =
     (case s of
        q # r # ds \<Rightarrow> q = CHR ''Q'' \<and> r = CHR ''R'' \<and> ds \<noteq> [] \<and> list_all is_digit ds
      | _ \<Rightarrow> False)"

definition legacy_prefix :: "string \<Rightarrow> bool" where
  "legacy_prefix s =
     (case s of
        q # r # d # _ \<Rightarrow> q = CHR ''Q'' \<and> r = CHR ''R'' \<and> is_digit d
      | _ \<Rightarrow> False)"

text \<open>\<^verbatim>\<open>s.replace(pat, rep)\<close> with a string pattern: the first occurrence only.\<close>

fun replace_first :: "string \<Rightarrow> string \<Rightarrow> string \<Rightarrow> string" where
  "replace_first pat rep [] = (if pat = [] then rep else [])"
| "replace_first pat rep (c # cs) =
     (if take (length pat) (c # cs) = pat then rep @ drop (length pat) (c # cs)
      else c # replace_first pat rep cs)"

datatype js_error = SyntaxError | TypeError

text \<open>
  The \<^verbatim>\<open>data\<close> of a successful result: the parsed object itself, or the legacy
  record \<^verbatim>\<open>{type: 'profile', id: ..., legacy: true}\<close> with its id string.
  A failed result \<^verbatim>\<open>{success: false, error: e}\<close> is \<open>Inl e\<close>.
\<close>

datatype qr_data = Structured json | Legacy string

text \<open>
  The \<^verbatim>\<open>try\<close> block of \<^verbatim>\<open>parseQRData\<close>: \<^verbatim>\<open>JSON.parse\<close> throws on bad text,
  and reading \<^verbatim>\<open>data.type\<close> throws when the text is \<^verbatim>\<open>null\<close>.
\<close>

definition parseQRData_try :: "string \<Rightarrow> js_error + (string + qr_data)" where
  "parseQRData_try qrString =
     (case JSON_parse qrString of
        None \<Rightarrow> Inl SyntaxError
      | Some JNull \<Rightarrow> Inl TypeError
      | Some data \<Rightarrow>
          if \<not> truthy (get_member data ''type'') \<or> \<not> truthy (get_member data ''id'')
             \<or> get_member data ''app'' \<noteq> Val (JStr ''lansia-health'')
          then Inr (Inl ''Invalid QR code format'')
          else Inr (Inr (Structured data)))"

definition parseQRData :: "string \<Rightarrow> string + qr_data" where
  "parseQRData qrString =
     (case parseQRData_try qrString of
        Inr result \<Rightarrow> result
      | Inl error \<Rightarrow>
          if legacy_exact qrString then Inr (Legacy (replace_first ''QR'' [] qrString))
          else Inl ''Invalid QR code data'')"

text \<open>
  \<^verbatim>\<open>validateQRFormat\<close> returns the value of
  \<^verbatim>\<open>data.type && data.id && data.app === 'lansia-health'\<close>, which is a boolean only
  when both fields are truthy.
\<close>

definition validateQRFormat_try :: "string \<Rightarrow> js_error + jsval" where
  "validateQRFormat_try qrString =
     (case JSON_parse qrString of
        None \<Rightarrow> Inl SyntaxError
      | Some JNull \<Rightarrow> Inl TypeError
      | Some data \<Rightarrow>
          Inr (and_and (get_member data ''type'')
                 (and_and (get_member data ''id'')
                    (Val (JBool (get_member data ''app'' = Val (JStr ''lansia-health'')))))))"

definition validateQRFormat :: "string \<Rightarrow> jsval" where
  "validateQRFormat qrString =
     (if qrString = [] then Val (JBool False)
      else case validateQRFormat_try qrString of
             Inr v \<Rightarrow> v
           | Inl error \<Rightarrow> Val (JBool (legacy_prefix qrString)))"

section \<open>Session tokens (src/middleware/auth.js, 6--20)\<close>

text \<open>
  The payload handed to \<^verbatim>\<open>generateToken\<close> at login,
  \<^verbatim>\<open>{userId, username, role}\<close>, and what \<^verbatim>\<open>jwt.verify\<close> gives back: the same
  object with the issue time \<^verbatim>\<open>iat\<close> and the expiry \<^verbatim>\<open>exp\<close>, both in seconds.
\<close>

record token_payload =
  userId :: int
  username :: string
  role :: string

record decoded_token = token_payload +
  iat :: int
  expiry :: int

text \<open>
  The environment: \<^verbatim>\<open>JWT_SECRET\<close>, and \<^verbatim>\<open>JWT_EXPIRES_IN\<close> as the number of
  seconds it stands for (\<open>None\<close> when it is unset or empty, so that
  \<^verbatim>\<open>process.env.JWT_EXPIRES_IN || '24h'\<close> takes the default).
\<close>

record env =
  JWT_SECRET :: string
  JWT_EXPIRES_IN :: "int option"

definition expiresIn :: "env \<Rightarrow> int" where
  "expiresIn e = (case JWT_EXPIRES_IN e of None \<Rightarrow> 24 * 60 * 60 | Some t \<Rightarrow> t)"

subsection \<open>The token library\<close>

text \<open>
  Modelled from the spec: the token format of the jsonwebtoken package, which
  src/middleware/auth.js calls and the repository does not contain. A token is three
  segments separated by dots: a fixed header, the body (the claims with issued-at and
  expiry, serialised as JSON) and the signature (the keyed hash of header and body).
  A segment is written in hexadecimal, so that it holds no dot. The keyed hash \<open>H\<close>
  (secret, then message) is a parameter of the model.
\<close>

datatype jwt_error = Malformed | SignatureInvalid | Expired

definition encode_segment :: "string \<Rightarrow> string" where
  "encode_segment s =
     concat (map (\<lambda>c. [hex_digit (of_char c div 16), hex_digit (of_char c mod 16)]) s)"

fun decode_segment :: "string \<Rightarrow> string option" where
  "decode_segment [] = Some []"
| "decode_segment [a] = None"
| "decode_segment (a # b # cs) =
     (case (hex_val a, hex_val b) of
        (Some h, Some l) \<Rightarrow> map_option ((#) (char_of (16 * h + l))) (decode_segment cs)
      | _ \<Rightarrow> None)"

text \<open>\<^verbatim>\<open>token.split('.')\<close>\<close>

fun split_dot :: "string \<Rightarrow> string list" where
  "split_dot [] = [[]]"
| "split_dot (c # cs) =
     (if c = CHR ''.'' then [] # split_dot cs
      else (case split_dot cs of [] \<Rightarrow> [[c]] | s # ss \<Rightarrow> (c # s) # ss))"

definition serialize_payload :: "decoded_token \<Rightarrow> string" where
  "serialize_payload d =
     stringify_object
       [(''userId'', show_int (userId d)),
        (''username'', quote (username d)),
        (''role'', quote (role d)),
        (''iat'', show_int (iat d)),
        (''exp'', show_int (expiry d))]"

definition as_int :: "jsval \<Rightarrow> int option" where
  "as_int v =
     (case v of
        Val (JNum r) \<Rightarrow> if of_int \<lfloor>r\<rfloor> = r then Some \<lfloor>r\<rfloor> else None
      | _ \<Rightarrow> None)"

definition as_string :: "jsval \<Rightarrow> string option" where
  "as_string v = (case v of Val (JStr s) \<Rightarrow> Some s | _ \<Rightarrow> None)"

definition parse_payload :: "string \<Rightarrow> decoded_token option" where
  "parse_payload text =
     (case JSON_parse text of
        Some (JObj kvs) \<Rightarrow>
          (case (as_int (get_member (JObj kvs) ''userId''),
                 as_string (get_member (JObj kvs) ''username''),
                 as_string (get_member (JObj kvs) ''role''),
                 as_int (get_member (JObj kvs) ''iat''),
                 as_int (get_member (JObj kvs) ''exp'')) of
             (Some u, Some n, Some r, Some i, Some e) \<Rightarrow>
               Some \<lparr>userId = u, username = n, role = r, iat = i, expiry = e\<rparr>
           | _ \<Rightarrow> None)
      | _ \<Rightarrow> None)"

definition jwt_header :: string where
  \<open>jwt_header = encode_segment ''{"alg":"HS256","typ":"JWT"}''\<close>

text \<open>
  Modelled from the spec: \<^verbatim>\<open>jwt.sign(payload, secret, {expiresIn})\<close>, the spec's
  \<open>issue\<close>. It serialises the claims with issued-at and expiry and signs them with
  the secret. \<open>ttl\<close> is the lifetime and \<open>clock\<close> the time of the call, in seconds.
\<close>

definition jwt_sign ::
  "(string \<Rightarrow> string \<Rightarrow> string) \<Rightarrow> token_payload \<Rightarrow> string \<Rightarrow> int \<Rightarrow> int \<Rightarrow> string" where
  "jwt_sign H payload secret ttl clock =
     (let body = encode_segment (serialize_payload
                   \<lparr>userId = userId payload, username = username payload, role = role payload,
                    iat = clock, expiry = clock + ttl\<rparr>);
          signed = jwt_header @ ''.'' @ body
      in signed @ ''.'' @ encode_segment (H secret signed))"

text \<open>
  Modelled from the spec: \<^verbatim>\<open>jwt.verify(token, secret)\<close>, the spec's \<open>verify\<close>.
  A structural corruption (wrong segment count, undecodable body) is \<open>Malformed\<close>;
  the signature is checked before a claim is trusted (\<open>SignatureInvalid\<close>), then the
  expiry (\<open>Expired\<close>); \<open>Inl\<close> is the error the library throws.
\<close>

definition jwt_verify ::
  "(string \<Rightarrow> string \<Rightarrow> string) \<Rightarrow> string \<Rightarrow> string \<Rightarrow> int \<Rightarrow> jwt_error + decoded_token" where
  "jwt_verify H token secret clock =
     (case split_dot token of
        [header, body, signature] \<Rightarrow>
          (case Option.bind (decode_segment body) parse_payload of
             None \<Rightarrow> Inl Malformed
           | Some d \<Rightarrow>
               if signature \<noteq> encode_segment (H secret (header @ ''.'' @ body))
               then Inl SignatureInvalid
               else if expiry d \<le> clock then Inl Expired
               else Inr d)
      | _ \<Rightarrow> Inl Malformed)"

subsection \<open>The wrappers of the repository\<close>

text \<open>
  \<^verbatim>\<open>generateToken(payload)\<close> takes no lifetime: it is the one of the environment.
  \<^verbatim>\<open>verifyToken(token)\<close> catches whatever \<^verbatim>\<open>jwt.verify\<close> throws and returns
  \<^verbatim>\<open>null\<close>. \<open>clock\<close> is the time of the call in seconds.
\<close>

definition generateToken ::
  "(string \<Rightarrow> string \<Rightarrow> string) \<Rightarrow> env \<Rightarrow> token_payload \<Rightarrow> int \<Rightarrow> string" where
  "generateToken H e payload clock = jwt_sign H payload (JWT_SECRET e) (expiresIn e) clock"

definition verifyToken ::
  "(string \<Rightarrow> string \<Rightarrow> string) \<Rightarrow> env \<Rightarrow> string \<Rightarrow> int \<Rightarrow> decoded_token option" where
  "verifyToken H e token clock =
     (case jwt_verify H token (JWT_SECRET e) clock of
        Inl error \<Rightarrow> None
      | Inr decoded \<Rightarrow> Some decoded)"

section \<open>The authentication middleware (src/middleware/auth.js, 33--77)\<close>

text \<open>
  The row \<^verbatim>\<open>SELECT id, username, role, is_active FROM users WHERE id = ?\<close> returns;
  \<^verbatim>\<open>is_active\<close> is the number MySQL stores for the flag. \<^verbatim>\<open>getOne\<close> answers
  \<^verbatim>\<open>{success: false}\<close> when no row matches and when the query fails: \<open>None\<close>.
\<close>

record user_row =
  row_id :: int
  row_username :: string
  row_role :: string
  is_active :: int

text \<open>
  \<open>getUser\<close> is the lookup by id, \<open>authHeader\<close> the value of
  \<^verbatim>\<open>req.headers.authorization\<close> (\<open>None\<close> when the header is absent). The result is
  the response the middleware sends, or the row it stores in \<^verbatim>\<open>req.user\<close> before it
  calls \<^verbatim>\<open>next()\<close>.
\<close>

definition authenticate ::
  "(string \<Rightarrow> string \<Rightarrow> string) \<Rightarrow> env \<Rightarrow> (int \<Rightarrow> user_row option) \<Rightarrow> int \<Rightarrow>
     string option \<Rightarrow> response + user_row" where
  "authenticate H e getUser clock authHeader =
     (case authHeader of
        None \<Rightarrow> Inl (reject 401 ''Access token required'')
      | Some h \<Rightarrow>
          if h = [] \<or> take 7 h \<noteq> ''Bearer '' then Inl (reject 401 ''Access token required'')
          else
            (case verifyToken H e (drop 7 h) clock of
               None \<Rightarrow> Inl (reject 401 ''Invalid or expired token'')
             | Some decoded \<Rightarrow>
                 (case getUser (userId decoded) of
                    None \<Rightarrow> Inl (reject 401 ''User not found or inactive'')
                  | Some row \<Rightarrow>
                      if is_active row = 0 then Inl (reject 401 ''User not found or inactive'')
                      else Inr row)))"

section \<open>Login (src/routes/profiles.js, 586--659)\<close>





section \<open>The rate limiter: one call\<close>

lemma allow_fst:
  "fst (allow k now g) \<longleftrightarrow>
     length (filter (\<lambda>t. now - t < windowMs) (userAttempts g k)) < maxAttempts"
  by (auto simp: allow_def sensitiveOperationLimit_def recentAttempts_def userAttempts_def
      Let_def split: option.splits)

lemma allow_snd_same:
  "userAttempts (snd (allow k now g)) k =
     (if fst (allow k now g)
      then filter (\<lambda>t. now - t < windowMs) (userAttempts g k) @ [now]
      else userAttempts g k)"
  by (auto simp: allow_def sensitiveOperationLimit_def recentAttempts_def userAttempts_def
      Let_def split: option.splits)

lemma allow_snd_other:
  "k' \<noteq> k \<Longrightarrow> userAttempts (snd (allow k now g)) k' = userAttempts g k'"
  by (auto simp: allow_def sensitiveOperationLimit_def recentAttempts_def userAttempts_def
      Let_def split: option.splits)

lemma filter_all: "length xs \<le> length (filter P xs) \<Longrightarrow> filter P xs = xs"
  by (metis filter_True length_filter_le le_antisym length_filter_less not_less)

lemma allow_len:
  "length (userAttempts g k') \<le> maxAttempts \<Longrightarrow>
   length (userAttempts (snd (allow k now g)) k') \<le> maxAttempts"
  by (cases "k' = k") (auto simp: allow_snd_same allow_snd_other allow_fst)

lemma allow_window:
  assumes "length (userAttempts g k) \<le> maxAttempts"
    and "t \<in> set (userAttempts (snd (allow k now g)) k)"
  shows "now - t < windowMs"
proof (cases "fst (allow k now g)")
  case True
  with assms(2) show ?thesis by (auto simp: allow_snd_same windowMs_def)
next
  case False
  then have "length (userAttempts g k)
      \<le> length (filter (\<lambda>t. now - t < windowMs) (userAttempts g k))"
    using assms(1) by (simp add: allow_fst)
  then have "filter (\<lambda>t. now - t < windowMs) (userAttempts g k) = userAttempts g k"
    by (rule filter_all)
  then have "\<forall>t \<in> set (userAttempts g k). now - t < windowMs"
    by (simp add: filter_id_conv)
  with False assms(2) show ?thesis by (simp add: allow_snd_same)
qed

lemma allow_upper:
  "\<forall>t \<in> set (userAttempts g k'). t \<le> b \<Longrightarrow> now \<le> b \<Longrightarrow>
   t \<in> set (userAttempts (snd (allow k now g)) k') \<Longrightarrow> t \<le> b"
  by (cases "k' = k") (auto simp: allow_snd_same allow_snd_other split: if_splits)

lemma allow_step_ok:
  assumes "userAttempts h k = ts" and "\<forall>t \<in> set ts. now - t < windowMs"
    and "length ts < maxAttempts"
  shows "fst (allow k now h) \<and> userAttempts (snd (allow k now h)) k = ts @ [now]"
proof -
  have f: "filter (\<lambda>t. now - t < windowMs) ts = ts"
    using assms(2) by (simp add: filter_id_conv)
  show ?thesis by (simp add: allow_fst allow_snd_same assms(1,3) f)
qed

lemma allow_step_full:
  assumes "userAttempts h k = ts" and "\<forall>t \<in> set ts. now - t < windowMs"
    and "maxAttempts \<le> length ts"
  shows "\<not> fst (allow k now h) \<and> userAttempts (snd (allow k now h)) k = ts"
proof -
  have f: "filter (\<lambda>t. now - t < windowMs) ts = ts"
    using assms(2) by (simp add: filter_id_conv)
  show ?thesis using assms(3) by (simp add: allow_fst allow_snd_same assms(1) f)
qed

section \<open>The rate limiter: runs of calls\<close>

lemma allow_run_fst_Cons:
  "fst (allow_run ((k, now) # cs) g) =
     fst (allow k now g) # fst (allow_run cs (snd (allow k now g)))"
  by (simp add: allow_run.simps(2) Let_def)

lemma allow_run_snd_Cons:
  "snd (allow_run ((k, now) # cs) g) = snd (allow_run cs (snd (allow k now g)))"
  by (simp add: allow_run.simps(2) Let_def)

lemma allow_run_snd_append:
  "snd (allow_run (cs @ ds) g) = snd (allow_run ds (snd (allow_run cs g)))"
proof (induction cs arbitrary: g)
  case Nil
  then show ?case by simp
next
  case (Cons c cs)
  obtain key now where c: "c = (key, now)" by (cases c)
  from Cons show ?case by (simp add: c allow_run_snd_Cons)
qed

lemma run_len:
  "\<forall>k. length (userAttempts g k) \<le> maxAttempts \<Longrightarrow>
   length (userAttempts (snd (allow_run cs g)) k) \<le> maxAttempts"
proof (induction cs arbitrary: g k)
  case Nil
  then show ?case by simp
next
  case (Cons c cs)
  obtain key now where c: "c = (key, now)" by (cases c)
  have "\<forall>k. length (userAttempts (snd (allow key now g)) k) \<le> maxAttempts"
    using Cons.prems allow_len by blast
  from Cons.IH [OF this] show ?case by (simp add: c allow_run_snd_Cons)
qed

lemma run_upper:
  "\<forall>k. \<forall>t \<in> set (userAttempts g k). t \<le> b \<Longrightarrow> \<forall>c \<in> set cs. snd c \<le> b \<Longrightarrow>
   t \<in> set (userAttempts (snd (allow_run cs g)) k) \<Longrightarrow> t \<le> b"
proof (induction cs arbitrary: g k t)
  case Nil
  then show ?case by simp
next
  case (Cons c cs)
  obtain key now where c: "c = (key, now)" by (cases c)
  have "\<forall>k. \<forall>t \<in> set (userAttempts (snd (allow key now g)) k). t \<le> b"
    using Cons.prems(1,2) allow_upper [of g _ b now _ key] by (auto simp: c)
  from Cons.IH [OF this] Cons.prems(2,3) show ?case by (simp add: c allow_run_snd_Cons)
qed

text \<open>
  C3. Max 5 attempts, window 15 minutes. From a store with nothing recorded for the key,
  five calls at non-decreasing times are all admitted, a sixth one less than a window
  after the first is refused, and a call a full window or more after the first recorded
  attempt is admitted again. Every call keeps exactly the timestamps less than a window
  old (which drops those a full window old or older), admits when fewer than the maximum
  are left and then appends its own time; a refused call leaves the sequence as it was.
\<close>

theorem rate_limit_window:
  assumes "userAttempts g k = []"
    and "t1 \<le> t2" "t2 \<le> t3" "t3 \<le> t4" "t4 \<le> t5" "t5 \<le> t6" "t6 - t1 < windowMs"
    and "windowMs \<le> t7 - t1"
  shows "fst (allow_run [(k, t1), (k, t2), (k, t3), (k, t4), (k, t5), (k, t6), (k, t7)] g)
           = [True, True, True, True, True, False, True]
       \<and> (\<forall>now h. fst (allow k now h) =
             (length (filter (\<lambda>t. now - t < windowMs) (userAttempts h k)) < maxAttempts)
          \<and> userAttempts (snd (allow k now h)) k =
             (if fst (allow k now h)
              then filter (\<lambda>t. now - t < windowMs) (userAttempts h k) @ [now]
              else userAttempts h k))"
proof -
  define g1 where "g1 = snd (allow k t1 g)"
  define g2 where "g2 = snd (allow k t2 g1)"
  define g3 where "g3 = snd (allow k t3 g2)"
  define g4 where "g4 = snd (allow k t4 g3)"
  define g5 where "g5 = snd (allow k t5 g4)"
  define g6 where "g6 = snd (allow k t6 g5)"
  have s1: "fst (allow k t1 g) \<and> userAttempts g1 k = [] @ [t1]"
    unfolding g1_def by (rule allow_step_ok [OF assms(1)]) (simp_all add: maxAttempts_def)
  have s2: "fst (allow k t2 g1) \<and> userAttempts g2 k = [t1] @ [t2]"
    unfolding g2_def using assms s1 by (intro allow_step_ok) (simp_all add: maxAttempts_def)
  have s3: "fst (allow k t3 g2) \<and> userAttempts g3 k = [t1, t2] @ [t3]"
    unfolding g3_def using assms s2 by (intro allow_step_ok) (simp_all add: maxAttempts_def)
  have s4: "fst (allow k t4 g3) \<and> userAttempts g4 k = [t1, t2, t3] @ [t4]"
    unfolding g4_def using assms s3 by (intro allow_step_ok) (simp_all add: maxAttempts_def)
  have s5: "fst (allow k t5 g4) \<and> userAttempts g5 k = [t1, t2, t3, t4] @ [t5]"
    unfolding g5_def using assms s4 by (intro allow_step_ok) (simp_all add: maxAttempts_def)
  have s6: "\<not> fst (allow k t6 g5) \<and> userAttempts g6 k = [t1, t2, t3, t4, t5]"
    unfolding g6_def using assms s5 by (intro allow_step_full) (simp_all add: maxAttempts_def)
  have "length (filter (\<lambda>t. t7 - t < windowMs) [t1, t2, t3, t4, t5]) \<le> 4"
    using assms(8) by simp
  then have s7: "fst (allow k t7 g6)"
    using s6 by (simp add: allow_fst maxAttempts_def)
  have run: "fst (allow_run [(k, t1), (k, t2), (k, t3), (k, t4), (k, t5), (k, t6), (k, t7)] g)
           = [True, True, True, True, True, False, True]"
    using s1 s2 s3 s4 s5 s6 s7
    by (simp only: allow_run_fst_Cons allow_run_snd_Cons allow_run.simps(1) fst_conv
        g1_def [symmetric] g2_def [symmetric] g3_def [symmetric]
        g4_def [symmetric] g5_def [symmetric] g6_def [symmetric])
  show ?thesis by (intro conjI allI run allow_fst allow_snd_same)
qed

theorem rate_limit_window_witness:
  "fst (allow_run [(''::1_anonymous'', 0), (''::1_anonymous'', 1000), (''::1_anonymous'', 2000),
        (''::1_anonymous'', 3000), (''::1_anonymous'', 4000), (''::1_anonymous'', 5000),
        (''::1_anonymous'', 900000)] None)
     = [True, True, True, True, True, False, True]"
  by (rule rate_limit_window [of None "''::1_anonymous''" 0 1000 2000 3000 4000 5000 900000,
        THEN conjunct1])
    (simp_all add: userAttempts_def windowMs_def)

text \<open>
  C9, as stated, fails for a key other than the one of the call: a call prunes only the
  sequence of its own key. After a call for \<open>a\<close> at time 0 and a call for \<open>b\<close> at
  time 10000000, the sequence stored for \<open>a\<close> still holds the timestamp 0, which is
  more than a window older than the time of the last call.
\<close>

theorem stale_other_key_counterexample:
  "userAttempts (snd (allow_run [(''a'', 0), (''b'', 10000000)] None)) ''a'' = [0]
   \<and> \<not> 10000000 - 0 < windowMs"
  by (simp add: allow_run_snd_Cons allow_snd_same allow_snd_other allow_fst
      userAttempts_def [of None] windowMs_def maxAttempts_def)

text \<open>
  C9, amended. In a process that starts without a store, after every call the sequence
  stored for the key of that call holds only timestamps less than a window older than
  the time of the call (none of them later than that time when the clock never went
  back), and the sequence stored for every key, the key of the call or another, holds at
  most 5 timestamps. The sequence of a key that was not called is left as it was.
\<close>

theorem rate_store_invariant:
  "let g' = snd (allow_run (cs @ [(k, now)]) None) in
     (\<forall>t \<in> set (userAttempts g' k).
        now - t < windowMs \<and> (sorted (map snd (cs @ [(k, now)])) \<longrightarrow> t \<le> now))
     \<and> (\<forall>k'. length (userAttempts g' k') \<le> maxAttempts)
     \<and> (\<forall>k'. k' \<noteq> k \<longrightarrow>
           userAttempts g' k' = userAttempts (snd (allow_run cs None)) k')"
proof -
  define g0 where "g0 = snd (allow_run cs None)"
  have len0: "\<forall>k. length (userAttempts None k) \<le> maxAttempts"
    by (simp add: userAttempts_def)
  have len: "length (userAttempts g0 k') \<le> maxAttempts" for k'
    unfolding g0_def using run_len [OF len0] .
  have g': "snd (allow_run (cs @ [(k, now)]) None) = snd (allow k now g0)"
    by (simp add: allow_run_snd_append allow_run_snd_Cons g0_def)
  have w: "\<forall>t \<in> set (userAttempts (snd (allow k now g0)) k). now - t < windowMs"
    using allow_window [OF len] by blast
  have l: "\<forall>k'. length (userAttempts (snd (allow k now g0)) k') \<le> maxAttempts"
    using allow_len [OF len] by blast
  have u: "t \<le> now"
    if s: "sorted (map snd (cs @ [(k, now)]))"
      and t: "t \<in> set (userAttempts (snd (allow k now g0)) k)" for t
  proof -
    from s have b: "\<forall>c \<in> set (cs @ [(k, now)]). snd c \<le> now"
      by (auto simp: sorted_append)
    have e: "\<forall>k. \<forall>t \<in> set (userAttempts None k). t \<le> now"
      by (simp add: userAttempts_def)
    from run_upper [OF e b] t g' show "t \<le> now" by simp
  qed
  have o: "\<forall>k'. k' \<noteq> k \<longrightarrow> userAttempts (snd (allow k now g0)) k' = userAttempts g0 k'"
    by (simp add: allow_snd_other)
  show ?thesis unfolding Let_def g' g0_def [symmetric] using w l u o by blast
qed

theorem rate_store_invariant_witness:
  "userAttempts (snd (allow_run ([(''a'', 0), (''b'', 5), (''a'', 7)] @ [(''a'', 900000)]) None)) ''a''
     = [7, 900000]
   \<and> sorted (map snd ([(''a'', 0 :: int), (''b'', 5), (''a'', 7)] @ [(''a'', 900000)]))
   \<and> 900000 - 7 < windowMs \<and> (7 :: int) \<le> 900000
   \<and> 900000 - 900000 < windowMs \<and> (900000 :: int) \<le> 900000
   \<and> userAttempts (snd (allow_run ([(''a'', 0), (''b'', 5), (''a'', 7)] @ [(''a'', 900000)]) None)) ''b''
     = userAttempts (snd (allow_run [(''a'', 0), (''b'', 5), (''a'', 7)] None)) ''b''"
proof -
  have e: "userAttempts
      (snd (allow_run ([(''a'', 0), (''b'', 5), (''a'', 7)] @ [(''a'', 900000)]) None)) ''a''
        = [7, 900000]"
    by (simp add: allow_run_snd_Cons allow_snd_same allow_snd_other allow_fst
        userAttempts_def [of None] windowMs_def maxAttempts_def)
  have n: "''b'' \<noteq> ''a''" by simp
  from rate_store_invariant [of "[(''a'', 0), (''b'', 5), (''a'', 7)]" "''a''" 900000]
  have "(\<forall>t \<in> set [7, 900000 :: int].
           900000 - t < windowMs
           \<and> (sorted (map snd ([(''a'', 0 :: int), (''b'', 5), (''a'', 7)] @ [(''a'', 900000)]))
                \<longrightarrow> t \<le> 900000))
        \<and> (\<forall>k'. k' \<noteq> ''a'' \<longrightarrow>
             userAttempts
               (snd (allow_run ([(''a'', 0), (''b'', 5), (''a'', 7)] @ [(''a'', 900000)]) None)) k'
             = userAttempts (snd (allow_run [(''a'', 0), (''b'', 5), (''a'', 7)] None)) k')"
    unfolding Let_def e by blast
  with e n show ?thesis by simp
qed

section \<open>Reading back what was written\<close>

subsection \<open>Digits\<close>

lemma of_char_char_of: "(n::nat) < 256 \<Longrightarrow> (of_char (char_of n) :: nat) = n"
  by simp

lemma hex_val_hex_digit: "(n::nat) < 16 \<Longrightarrow> hex_val (hex_digit n) = Some n"
  by (auto simp: hex_val_def hex_digit_def Let_def of_char_char_of)

lemma is_digit_char_of: "(n::nat) < 10 \<Longrightarrow> is_digit (char_of (48 + n))"
  by (simp add: is_digit_def of_char_char_of)

lemma digit_val_char_of: "(n::nat) < 10 \<Longrightarrow> digit_val (char_of (48 + n)) = n"
  by (simp add: digit_val_def of_char_char_of)

lemma digits_val_snoc: "digits_val (ds @ [d]) = 10 * digits_val ds + digit_val d"
  by (simp add: digits_val_def)

lemma show_nat_digits: "list_all is_digit (show_nat n)"
proof (induction n rule: show_nat.induct)
  case (1 n)
  show ?case
  proof (cases "n < 10")
    case True
    then show ?thesis by (subst show_nat.simps) (simp add: is_digit_char_of)
  next
    case False
    with 1 show ?thesis by (subst show_nat.simps) (simp add: is_digit_char_of)
  qed
qed

lemma show_nat_value: "digits_val (show_nat n) = n"
proof (induction n rule: show_nat.induct)
  case (1 n)
  show ?case
  proof (cases "n < 10")
    case True
    then show ?thesis
      by (subst show_nat.simps) (simp add: digits_val_def digit_val_char_of)
  next
    case False
    with 1 show ?thesis
      by (subst show_nat.simps) (simp add: digits_val_snoc digit_val_char_of)
  qed
qed

lemma show_nat_nonempty: "show_nat n \<noteq> []"
  by (subst show_nat.simps) simp

lemma show_nat_hd: "hd (show_nat n) = CHR ''0'' \<Longrightarrow> show_nat n = ''0''"
proof (induction n rule: show_nat.induct)
  case (1 n)
  show ?case
  proof (cases "n < 10")
    case True
    with 1(2) have "char_of (48 + n) = CHR ''0''" by (subst (asm) show_nat.simps) simp
    then have "(of_char (char_of (48 + n)) :: nat) = of_char (CHR ''0'')" by simp
    then have "n = 0" using True by (simp add: of_char_char_of)
    then show ?thesis by (subst show_nat.simps) (simp add: char_of_eq_iff)
  next
    case False
    from 1(2) False have "hd (show_nat (n div 10)) = CHR ''0''"
      by (subst (asm) show_nat.simps) (simp add: show_nat_nonempty)
    from 1(1) [OF False this] have "digits_val (show_nat (n div 10)) = digits_val ''0''" by simp
    then have "n div 10 = 0" by (simp only: show_nat_value) (simp add: digits_val_def digit_val_def)
    with False show ?thesis by simp
  qed
qed


subsection \<open>Numbers\<close>

lemma number_stop_simps [simp]:
  "number_stop (CHR '','' # t)" "number_stop (CHR ''}'' # t)"
  by (simp_all add: number_stop_def)

lemma takeWhile_digits:
  "list_all is_digit ds \<Longrightarrow> number_stop t \<Longrightarrow> takeWhile is_digit (ds @ t) = ds"
  by (cases t) (auto simp: number_stop_def is_digit_def list_all_iff)

lemma dropWhile_digits:
  "list_all is_digit ds \<Longrightarrow> number_stop t \<Longrightarrow> dropWhile is_digit (ds @ t) = t"
  by (cases t) (auto simp: number_stop_def is_digit_def list_all_iff)

lemma lex_int_show_nat:
  assumes "number_stop t"
  shows "lex_int (show_nat n @ t) = Some (show_nat n, t)"
proof -
  obtain c cs where c: "show_nat n = c # cs"
    using show_nat_nonempty [of n] by (cases "show_nat n") auto
  have d: "list_all is_digit (c # cs)" using show_nat_digits [of n] by (simp add: c)
  show ?thesis
  proof (cases "c = CHR ''0''")
    case True
    with show_nat_hd [of n] c have "cs = []" by simp
    with True c show ?thesis by (simp add: lex_int_def)
  next
    case False
    have "takeWhile is_digit ((c # cs) @ t) = c # cs" "dropWhile is_digit ((c # cs) @ t) = t"
      using d assms by (rule takeWhile_digits, rule dropWhile_digits)
    with False d show ?thesis by (simp add: lex_int_def c)
  qed
qed

lemma lex_frac_stop: "number_stop t \<Longrightarrow> lex_frac t = Some ([], t)"
  by (cases t) (auto simp: lex_frac_def number_stop_def)

lemma lex_exp_stop: "number_stop t \<Longrightarrow> lex_exp t = Some (0, t)"
  by (cases t) (auto simp: lex_exp_def number_stop_def)

lemma show_nat_not_minus: "hd (show_nat n) \<noteq> CHR ''-''"
proof -
  obtain c cs where c: "show_nat n = c # cs"
    using show_nat_nonempty [of n] by (cases "show_nat n") auto
  with show_nat_digits [of n] have "is_digit c" by simp
  then have "c \<noteq> CHR ''-''" by (auto simp: is_digit_def)
  with c show ?thesis by simp
qed

lemma lex_number_show_int:
  assumes "number_stop t"
  shows "lex_number (show_int i @ t) = Some (of_int i, t)"
proof (cases "i < 0")
  case True
  then have v: "- rat_of_nat (nat (- i)) = of_int i" by simp
  from True show ?thesis
    by (simp add: show_int_def lex_number_def lex_int_show_nat [OF assms] lex_frac_stop [OF assms]
        lex_exp_stop [OF assms] number_value_def show_nat_value pow10_def v)
next
  case False
  obtain c cs where c: "show_nat (nat i) = c # cs"
    using show_nat_nonempty [of "nat i"] by (cases "show_nat (nat i)") auto
  with show_nat_not_minus [of "nat i"] have m: "c \<noteq> CHR ''-''" by simp
  have l: "lex_int ((c # cs) @ t) = Some (c # cs, t)"
    using lex_int_show_nat [OF assms, of "nat i"] by (simp add: c)
  have v: "digits_val (c # cs) = nat i" using show_nat_value [of "nat i"] by (simp add: c)
  from False m show ?thesis
    using l by (simp add: show_int_def lex_number_def c lex_frac_stop [OF assms]
        lex_exp_stop [OF assms] number_value_def v pow10_def)
qed

subsection \<open>Quoted strings\<close>

lemma lex_string_quote_char:
  assumes "lex_string t = Some (s, r)"
  shows "lex_string (quote_char c @ t) = Some (c # s, r)"
proof (cases "c \<in> {CHR 0x08, CHR 0x09, CHR 0x0A, CHR 0x0C, CHR 0x0D, CHR 0x22, CHR 0x5C}")
  case True
  then show ?thesis
    using assms by (auto simp: quote_char_def escape_def unescape_def)
next
  case False
  then have q: "quote_char c =
      (if (of_char c :: nat) < 32 then
         [CHR 0x5C, CHR ''u'', CHR ''0'', CHR ''0'',
          hex_digit (of_char c div 16), hex_digit (of_char c mod 16)]
       else [c])"
    by (simp add: quote_char_def)
  show ?thesis
  proof (cases "(of_char c :: nat) < 32")
    case ctrl: True
    have "hex_val (CHR ''0'') = Some 0" by (simp add: hex_val_def)
    then have h: "hex4 (CHR ''0'') (CHR ''0'') (hex_digit (of_char c div 16)) (hex_digit (of_char c mod 16))
               = Some (of_char c)"
      using ctrl by (simp add: hex4_def hex_val_hex_digit)
    have u: "utf8 (of_char c) = [c]" using ctrl by (simp add: utf8_def)
    show ?thesis using assms ctrl by (simp add: q escape_def h u)
  next
    case plain: False
    with False show ?thesis using assms by (simp add: q)
  qed
qed

lemma lex_string_quote_body:
  "lex_string (concat (map quote_char s) @ CHR 0x22 # rest) = Some (s, rest)"
  by (induction s) (simp_all add: lex_string_quote_char)


subsection \<open>Tokens of a serialised object\<close>

lemma emit_Some: "emit t (Some ts) = Some (t # ts)"
  by (simp add: emit_def)

lemma tokenize_quote: "tokenize (quote s @ rest) = emit (TAtom (JStr s)) (tokenize rest)"
  by (simp add: quote_def is_ws_def scan_def punct_def lex_string_quote_body)

lemma tokenize_show_int:
  assumes "number_stop t"
  shows "tokenize (show_int i @ t) = emit (TAtom (JNum (of_int i))) (tokenize t)"
proof -
  obtain c cs where c: "show_int i = c # cs" and d: "c = CHR ''-'' \<or> is_digit c"
  proof (cases "i < 0")
    case True
    then show ?thesis using that by (simp add: show_int_def)
  next
    case False
    obtain a as where a: "show_nat (nat i) = a # as"
      using show_nat_nonempty [of "nat i"] by (cases "show_nat (nat i)") auto
    with show_nat_digits [of "nat i"] have "is_digit a" by simp
    with False a show ?thesis using that by (simp add: show_int_def)
  qed
  from d have w: "\<not> is_ws c" "punct c = None" "c \<noteq> CHR 0x22"
    by (auto simp: is_ws_def punct_def is_digit_def)
  have "lex_number ((c # cs) @ t) = Some (of_int i, t)"
    using lex_number_show_int [OF assms, of i] by (simp add: c)
  with w d show ?thesis by (simp add: c scan_def)
qed

lemma tokenize_punct:
  "tokenize (CHR ''{'' # t) = emit TLBrace (tokenize t)"
  "tokenize (CHR ''}'' # t) = emit TRBrace (tokenize t)"
  "tokenize (CHR '':'' # t) = emit TColon (tokenize t)"
  "tokenize (CHR '','' # t) = emit TComma (tokenize t)"
  by (simp_all add: is_ws_def scan_def punct_def)

lemma JSON_parse_profile:
  "JSON_parse (createProfileQRData i name ts) =
     Some (JObj [(''type'', JStr ''profile''), (''id'', JNum (of_int i)), (''name'', JStr name),
                 (''timestamp'', JStr ts), (''app'', JStr ''lansia-health'')])"
proof -
  have "tokenize (createProfileQRData i name ts) =
      Some [TLBrace, TAtom (JStr ''type''), TColon, TAtom (JStr ''profile''), TComma,
            TAtom (JStr ''id''), TColon, TAtom (JNum (of_int i)), TComma,
            TAtom (JStr ''name''), TColon, TAtom (JStr name), TComma,
            TAtom (JStr ''timestamp''), TColon, TAtom (JStr ts), TComma,
            TAtom (JStr ''app''), TColon, TAtom (JStr ''lansia-health''), TRBrace]"
    by (simp add: createProfileQRData_def stringify_object_def tokenize_punct tokenize_quote
        tokenize_show_int emit_Some del: tokenize.simps(2))
  then show ?thesis by (simp add: JSON_parse_def)
qed

lemma JSON_parse_payload:
  "JSON_parse (serialize_payload d) =
     Some (JObj [(''userId'', JNum (of_int (userId d))), (''username'', JStr (username d)),
                 (''role'', JStr (role d)), (''iat'', JNum (of_int (iat d))),
                 (''exp'', JNum (of_int (expiry d)))])"
proof -
  have "tokenize (serialize_payload d) =
      Some [TLBrace, TAtom (JStr ''userId''), TColon, TAtom (JNum (of_int (userId d))), TComma,
            TAtom (JStr ''username''), TColon, TAtom (JStr (username d)), TComma,
            TAtom (JStr ''role''), TColon, TAtom (JStr (role d)), TComma,
            TAtom (JStr ''iat''), TColon, TAtom (JNum (of_int (iat d))), TComma,
            TAtom (JStr ''exp''), TColon, TAtom (JNum (of_int (expiry d))), TRBrace]"
    by (simp add: serialize_payload_def stringify_object_def tokenize_punct tokenize_quote
        tokenize_show_int emit_Some del: tokenize.simps(2))
  then show ?thesis by (simp add: JSON_parse_def)
qed

lemma truthy_int: "truthy (Val (JNum (of_int i))) \<longleftrightarrow> i \<noteq> 0"
proof (cases "i = 0")
  case True
  then show ?thesis by simp
next
  case False
  then have "1 \<le> \<bar>rat_of_int i\<bar>" by (metis abs_ge_self abs_of_nonneg of_int_1 of_int_abs of_int_le_iff zero_less_abs_iff int_one_le_iff_zero_less le_less)
  moreover have "(1::rat) / 2 ^ 1075 < 1" by simp
  ultimately show ?thesis using False by simp
qed

section \<open>The QR payload codec\<close>

lemma JSON_parse_QR: "JSON_parse (CHR ''Q'' # s) = None"
  by (simp add: JSON_parse_def is_ws_def scan_def punct_def is_digit_def lex_literal_def)

lemma parseQRData_profile:
  "parseQRData (createProfileQRData i name ts) =
     (if i = 0 then Inl ''Invalid QR code format''
      else Inr (Structured (JObj [(''type'', JStr ''profile''), (''id'', JNum (of_int i)),
              (''name'', JStr name), (''timestamp'', JStr ts), (''app'', JStr ''lansia-health'')])))"
  by (simp add: parseQRData_def parseQRData_try_def JSON_parse_profile truthy_int
      del: truthy.simps(4))

text \<open>
  C5. \<^verbatim>\<open>parseQRData\<close> answers Legacy with id \<open>42\<close> for \<open>QR42\<close>, Invalid for \<open>{}\<close>
  and Invalid for \<open>not a payload\<close>. More generally an input that is \<open>QR\<close> followed by
  one or more digits (and nothing else) is not JSON text, and yields Legacy with the
  digits as its id.
\<close>

theorem parseQRData_legacy:
  "(ds \<noteq> [] \<and> list_all is_digit ds \<longrightarrow> parseQRData (''QR'' @ ds) = Inr (Legacy ds))
   \<and> parseQRData ''QR42'' = Inr (Legacy ''42'')
   \<and> parseQRData ''{}'' = Inl ''Invalid QR code format''
   \<and> parseQRData ''not a payload'' = Inl ''Invalid QR code data''"
proof (intro conjI impI)
  assume "ds \<noteq> [] \<and> list_all is_digit ds"
  then show "parseQRData (''QR'' @ ds) = Inr (Legacy ds)"
    by (simp add: parseQRData_def parseQRData_try_def JSON_parse_QR legacy_exact_def)
next
  show "parseQRData ''QR42'' = Inr (Legacy ''42'')"
    by (simp add: parseQRData_def parseQRData_try_def JSON_parse_QR legacy_exact_def is_digit_def)
next
  have "JSON_parse ''{}'' = Some (JObj [])"
    by (simp add: JSON_parse_def tokenize_punct emit_Some del: tokenize.simps(2))
  then show "parseQRData ''{}'' = Inl ''Invalid QR code format''"
    by (simp add: parseQRData_def parseQRData_try_def)
next
  have "JSON_parse ''not a payload'' = None"
    by (simp add: JSON_parse_def is_ws_def scan_def punct_def is_digit_def lex_literal_def)
  then show "parseQRData ''not a payload'' = Inl ''Invalid QR code data''"
    by (simp add: parseQRData_def parseQRData_try_def legacy_exact_def)
qed

theorem parseQRData_legacy_witness:
  "''7'' \<noteq> [] \<and> list_all is_digit ''7'' \<and> parseQRData ''QR7'' = Inr (Legacy ''7'')"
  using parseQRData_legacy [of "''7''"] by (simp add: is_digit_def)

text \<open>
  C2. \<^verbatim>\<open>validateQRFormat\<close> is meant to return true exactly when \<^verbatim>\<open>parseQRData\<close>
  succeeds. Its legacy pattern lacks the end anchor that the pattern of
  \<^verbatim>\<open>parseQRData\<close> has: on \<open>QR42abc\<close> it returns true, and \<^verbatim>\<open>parseQRData\<close>
  answers Invalid.
\<close>

theorem validateQRFormat_prefix_only:
  "validateQRFormat ''QR42abc'' = Val (JBool True)
   \<and> parseQRData ''QR42abc'' = Inl ''Invalid QR code data''"
  by (simp add: validateQRFormat_def validateQRFormat_try_def parseQRData_def parseQRData_try_def
      JSON_parse_QR legacy_exact_def legacy_prefix_def is_digit_def)

text \<open>
  C4, as stated, fails for the id 0: the payload written for id 0 and name \<open>Siti\<close>
  reads back as Invalid.
\<close>

theorem roundtrip_zero_counterexample:
  "parseQRData (createProfileQRData 0 ''Siti'' ''2026-11-03T13:30:00.000Z'')
     = Inl ''Invalid QR code format''"
  by (simp add: parseQRData_profile)

text \<open>
  C4, amended. For every profile id other than 0, every profile name and every
  timestamp, the payload \<^verbatim>\<open>createProfileQRData\<close> writes reads back through
  \<^verbatim>\<open>parseQRData\<close> as Structured, carrying the same id and the same name (and the
  type tag, the timestamp and the application tag it was written with).
\<close>

theorem roundtrip_nonzero:
  "profileId \<noteq> 0 \<Longrightarrow>
   parseQRData (createProfileQRData profileId profileName timestamp) =
     Inr (Structured (JObj [(''type'', JStr ''profile''), (''id'', JNum (of_int profileId)),
            (''name'', JStr profileName), (''timestamp'', JStr timestamp),
            (''app'', JStr ''lansia-health'')]))"
  by (simp add: parseQRData_profile)

theorem roundtrip_nonzero_witness:
  "(7::int) \<noteq> 0 \<and>
   parseQRData (createProfileQRData 7 ''Siti'' ''2026-11-03T13:30:00.000Z'') =
     Inr (Structured (JObj [(''type'', JStr ''profile''), (''id'', JNum 7),
            (''name'', JStr ''Siti''), (''timestamp'', JStr ''2026-11-03T13:30:00.000Z''),
            (''app'', JStr ''lansia-health'')]))"
  using roundtrip_nonzero [of 7 "''Siti''" "''2026-11-03T13:30:00.000Z''"] by simp

text \<open>
  C10. An input that parses as JSON with the application tag \<open>lansia-health\<close> and whose
  \<open>id\<close> or \<open>type\<close> is falsy is Invalid: presence is tested by truthiness, and the
  number 0 and the empty string are falsy. So the payload written for the id 0 reads
  back as Invalid, whatever the name.
\<close>

theorem falsy_field_invalid:
  "(JSON_parse s = Some data \<and> get_member data ''app'' = Val (JStr ''lansia-health'')
      \<and> (\<not> truthy (get_member data ''id'') \<or> \<not> truthy (get_member data ''type''))
      \<longrightarrow> parseQRData s = Inl ''Invalid QR code format'')
   \<and> \<not> truthy (Val (JNum 0)) \<and> \<not> truthy (Val (JStr []))
   \<and> parseQRData (createProfileQRData 0 name timestamp) = Inl ''Invalid QR code format''"
proof (intro conjI impI)
  assume a: "JSON_parse s = Some data \<and> get_member data ''app'' = Val (JStr ''lansia-health'')
      \<and> (\<not> truthy (get_member data ''id'') \<or> \<not> truthy (get_member data ''type''))"
  then have "data \<noteq> JNull" by auto
  with a show "parseQRData s = Inl ''Invalid QR code format''"
    by (cases data) (auto simp: parseQRData_def parseQRData_try_def)
qed (simp_all add: parseQRData_profile)

theorem falsy_field_invalid_witness:
  \<open>JSON_parse ''{"type":"profile","id":0,"app":"lansia-health"}''
     = Some (JObj [(''type'', JStr ''profile''), (''id'', JNum 0), (''app'', JStr ''lansia-health'')])
   \<and> \<not> truthy (get_member
          (JObj [(''type'', JStr ''profile''), (''id'', JNum 0), (''app'', JStr ''lansia-health'')])
          ''id'')
   \<and> parseQRData ''{"type":"profile","id":0,"app":"lansia-health"}''
     = Inl ''Invalid QR code format''\<close>
proof -
  have p: \<open>JSON_parse ''{"type":"profile","id":0,"app":"lansia-health"}''
     = Some (JObj [(''type'', JStr ''profile''), (''id'', JNum 0), (''app'', JStr ''lansia-health'')])\<close>
    by code_simp
  from falsy_field_invalid [THEN conjunct1, rule_format, of
      \<open>''{"type":"profile","id":0,"app":"lansia-health"}''\<close>
      "JObj [(''type'', JStr ''profile''), (''id'', JNum 0), (''app'', JStr ''lansia-health'')]"]
    p
  show ?thesis by simp
qed

section \<open>Session tokens\<close>

lemma hex_digit_not_dot: "(n::nat) < 16 \<Longrightarrow> hex_digit n \<noteq> CHR ''.''"
proof
  assume n: "n < 16" and "hex_digit n = CHR ''.''"
  then have "hex_val (hex_digit n) = hex_val (CHR ''.'')" by simp
  with n show False by (simp add: hex_val_hex_digit) (simp add: hex_val_def)
qed

lemma of_char_div_16: "(of_char c :: nat) div 16 < 16"
proof -
  have "(of_char c :: nat) < 256" by simp
  then show ?thesis by arith
qed

lemma encode_segment_Cons:
  "encode_segment (c # s) =
     hex_digit (of_char c div 16) # hex_digit (of_char c mod 16) # encode_segment s"
  by (simp add: encode_segment_def)

lemma encode_segment_no_dot: "CHR ''.'' \<notin> set (encode_segment s)"
proof (induction s)
  case Nil
  then show ?case by (simp add: encode_segment_def)
next
  case (Cons c s)
  have "hex_digit (of_char c div 16) \<noteq> CHR ''.''"
    by (rule hex_digit_not_dot) (rule of_char_div_16)
  moreover have "hex_digit (of_char c mod 16) \<noteq> CHR ''.''"
    by (rule hex_digit_not_dot) simp
  ultimately show ?case using Cons by (auto simp: encode_segment_Cons)
qed

lemma decode_encode_segment: "decode_segment (encode_segment s) = Some s"
proof (induction s)
  case Nil
  then show ?case by (simp add: encode_segment_def)
next
  case (Cons c s)
  have h: "hex_val (hex_digit (of_char c div 16)) = Some (of_char c div 16)"
    by (rule hex_val_hex_digit) (rule of_char_div_16)
  have l: "hex_val (hex_digit (of_char c mod 16)) = Some (of_char c mod 16)"
    by (rule hex_val_hex_digit) simp
  have "char_of (16 * ((of_char c :: nat) div 16) + of_char c mod 16) = c"
    by simp
  with Cons h l show ?case by (simp add: encode_segment_Cons)
qed

lemma split_dot_plain: "CHR ''.'' \<notin> set a \<Longrightarrow> split_dot a = [a]"
  by (induction a) auto

lemma split_dot_append:
  "CHR ''.'' \<notin> set a \<Longrightarrow> split_dot (a @ CHR ''.'' # rest) = a # split_dot rest"
  by (induction a) (auto split: list.splits)

lemma as_int_of_int: "as_int (Val (JNum (of_int i))) = Some i"
  by (simp add: as_int_def)

lemma parse_serialize_payload: "parse_payload (serialize_payload d) = Some d"
  by (simp add: parse_payload_def JSON_parse_payload as_int_of_int as_string_def)

lemma jwt_verify_sign:
  "jwt_verify H (jwt_sign H p s ttl c0) s c1 =
     (if c0 + ttl \<le> c1 then Inl Expired
      else Inr \<lparr>userId = userId p, username = username p, role = role p,
                iat = c0, expiry = c0 + ttl\<rparr>)"
proof -
  define d :: decoded_token where
    "d = \<lparr>userId = userId p, username = username p, role = role p, iat = c0, expiry = c0 + ttl\<rparr>"
  define body where "body = encode_segment (serialize_payload d)"
  define sig where "sig = encode_segment (H s (jwt_header @ ''.'' @ body))"
  have t: "jwt_sign H p s ttl c0 = jwt_header @ CHR ''.'' # body @ CHR ''.'' # sig"
    by (simp add: jwt_sign_def Let_def body_def sig_def d_def)
  have hd: "CHR ''.'' \<notin> set jwt_header"
    unfolding jwt_header_def by (rule encode_segment_no_dot)
  have bd: "CHR ''.'' \<notin> set body"
    unfolding body_def by (rule encode_segment_no_dot)
  have sd: "CHR ''.'' \<notin> set sig"
    unfolding sig_def by (rule encode_segment_no_dot)
  have sp: "split_dot (jwt_sign H p s ttl c0) = [jwt_header, body, sig]"
    by (simp add: t split_dot_append [OF hd] split_dot_append [OF bd] split_dot_plain [OF sd])
  have pb: "Option.bind (decode_segment body) parse_payload = Some d"
    by (simp add: body_def decode_encode_segment parse_serialize_payload)
  show ?thesis
    unfolding jwt_verify_def sp
    by (simp add: pb sig_def) (simp add: d_def)
qed

lemma split_dot_nonempty: "split_dot x \<noteq> []"
  by (induction x) (auto split: list.splits)

lemma split_dot_join: "split_dot (x @ CHR ''.'' # y) = split_dot x @ split_dot y"
proof (induction x)
  case Nil
  then show ?case by simp
next
  case (Cons c x)
  obtain s ss where s: "split_dot x = s # ss"
    using split_dot_nonempty [of x] by (cases "split_dot x") auto
  with Cons show ?case by simp
qed

lemma split_dot_single: "split_dot x = [y] \<Longrightarrow> y = x"
proof (induction x arbitrary: y)
  case Nil
  then show ?case by simp
next
  case (Cons c x)
  obtain s ss where s: "split_dot x = s # ss"
    using split_dot_nonempty [of x] by (cases "split_dot x") auto
  show ?case
  proof (cases "c = CHR ''.''")
    case True
    with Cons.prems show ?thesis by (simp add: split_dot_nonempty)
  next
    case False
    with Cons.prems s have "ss = []" "y = c # s" by auto
    with s Cons.IH [of s] show ?thesis by simp
  qed
qed

lemma encode_segment_inj: "encode_segment a = encode_segment b \<Longrightarrow> a = b"
  by (metis decode_encode_segment option.inject)

lemma jwt_sign_segments:
  "split_dot (jwt_sign H p s ttl c0) =
     [jwt_header,
      encode_segment (serialize_payload
        \<lparr>userId = userId p, username = username p, role = role p, iat = c0, expiry = c0 + ttl\<rparr>),
      encode_segment (H s (jwt_header @ ''.'' @ encode_segment (serialize_payload
        \<lparr>userId = userId p, username = username p, role = role p, iat = c0, expiry = c0 + ttl\<rparr>)))]"
proof -
  have hd: "CHR ''.'' \<notin> set jwt_header"
    unfolding jwt_header_def by (rule encode_segment_no_dot)
  show ?thesis
    by (simp add: jwt_sign_def Let_def split_dot_join split_dot_plain [OF hd]
        split_dot_plain [OF encode_segment_no_dot])
qed

lemma jwt_verify_count:
  "length (split_dot token) \<noteq> 3 \<Longrightarrow> jwt_verify H token secret clock = Inl Malformed"
  by (auto simp: jwt_verify_def split: list.splits)

lemma jwt_verify_three:
  "split_dot token = [header, body, signature] \<Longrightarrow>
   jwt_verify H token secret clock =
     (case Option.bind (decode_segment body) parse_payload of
        None \<Rightarrow> Inl Malformed
      | Some d \<Rightarrow>
          if signature \<noteq> encode_segment (H secret (header @ ''.'' @ body)) then Inl SignatureInvalid
          else if expiry d \<le> clock then Inl Expired
          else Inr d)"
  by (simp add: jwt_verify_def)

lemma refused_forged_signature:
  assumes "split_dot h = [h]" "split_dot b = [b]"
    and "forged \<noteq> encode_segment (H secret (h @ ''.'' @ b))"
  shows "jwt_verify H (h @ ''.'' @ b @ ''.'' @ forged) secret clock \<in> {Inl SignatureInvalid, Inl Malformed}"
proof -
  have sp: "split_dot (h @ ''.'' @ b @ ''.'' @ forged) = h # b # split_dot forged"
    by (simp add: split_dot_join assms(1,2))
  show ?thesis
  proof (cases "length (split_dot forged) = 1")
    case True
    then obtain y where "split_dot forged = [y]" by (cases "split_dot forged") auto
    with split_dot_single have "split_dot forged = [forged]" by blast
    with sp have "split_dot (h @ ''.'' @ b @ ''.'' @ forged) = [h, b, forged]" by simp
    from jwt_verify_three [OF this] assms(3) show ?thesis
      by (auto split: option.splits)
  next
    case False
    with sp have "length (split_dot (h @ ''.'' @ b @ ''.'' @ forged)) \<noteq> 3" by simp
    from jwt_verify_count [OF this] show ?thesis by simp
  qed
qed

lemma refused_forged_body:
  assumes "split_dot h = [h]" "split_dot s = [s]"
    and "s \<noteq> encode_segment (H secret (h @ ''.'' @ b'))"
  shows "jwt_verify H (h @ ''.'' @ b' @ ''.'' @ s) secret clock \<in> {Inl SignatureInvalid, Inl Malformed}"
proof -
  have sp: "split_dot (h @ ''.'' @ b' @ ''.'' @ s) = h # split_dot b' @ [s]"
    by (simp add: split_dot_join assms(1,2))
  show ?thesis
  proof (cases "length (split_dot b') = 1")
    case True
    then obtain y where "split_dot b' = [y]" by (cases "split_dot b'") auto
    with split_dot_single have "split_dot b' = [b']" by blast
    with sp have "split_dot (h @ ''.'' @ b' @ ''.'' @ s) = [h, b', s]" by simp
    from jwt_verify_three [OF this] assms(3) show ?thesis
      by (auto split: option.splits)
  next
    case False
    with sp have "length (split_dot (h @ ''.'' @ b' @ ''.'' @ s)) \<noteq> 3" by simp
    from jwt_verify_count [OF this] show ?thesis by simp
  qed
qed


section \<open>Verification, authentication and login\<close>

lemma verifyToken_sign:
  "verifyToken H e (generateToken H e p c0) c1 =
     (if c0 + expiresIn e \<le> c1 then None
      else Some \<lparr>userId = userId p, username = username p, role = role p,
                 iat = c0, expiry = c0 + expiresIn e\<rparr>)"
  by (simp add: verifyToken_def generateToken_def jwt_verify_sign)

lemma jwt_verify_garbage: "jwt_verify H ''garbage'' s c = Inl Malformed"
  by (simp add: jwt_verify_def)


text \<open>
  C6. For every payload \<^verbatim>\<open>{userId, username, role}\<close> and every lifetime, a token
  that \<^verbatim>\<open>generateToken\<close> issued verifies, at any time before its expiry, to the same
  user id, username and role, together with the issue time and the expiry. The token
  library is the one modelled from the spec.
\<close>

theorem verify_generate_roundtrip:
  "clock < issued + expiresIn e \<Longrightarrow>
   verifyToken H e (generateToken H e payload issued) clock =
     Some \<lparr>userId = userId payload, username = username payload, role = role payload,
           iat = issued, expiry = issued + expiresIn e\<rparr>"
  by (simp add: verifyToken_sign)

theorem verify_generate_roundtrip_witness:
  "(2000 :: int) < 1000 + expiresIn \<lparr>JWT_SECRET = ''s3'', JWT_EXPIRES_IN = None\<rparr>
   \<and> verifyToken (@) \<lparr>JWT_SECRET = ''s3'', JWT_EXPIRES_IN = None\<rparr>
        (generateToken (@) \<lparr>JWT_SECRET = ''s3'', JWT_EXPIRES_IN = None\<rparr>
           \<lparr>userId = 7, username = ''kader1'', role = ''kader''\<rparr> 1000) 2000
      = Some \<lparr>userId = 7, username = ''kader1'', role = ''kader'', iat = 1000, expiry = 87400\<rparr>"
proof -
  have h: "(2000 :: int) < 1000 + expiresIn \<lparr>JWT_SECRET = ''s3'', JWT_EXPIRES_IN = None\<rparr>"
    by (simp add: expiresIn_def)
  from verify_generate_roundtrip [OF h, of "(@)" "\<lparr>userId = 7, username = ''kader1'', role = ''kader''\<rparr>"] h
  show ?thesis by (simp add: expiresIn_def)
qed

text \<open>
  C1, as stated, fails: the token library tells an expired token from a malformed one,
  and \<^verbatim>\<open>verifyToken\<close> returns the same \<^verbatim>\<open>null\<close> for both.
\<close>

theorem verifyToken_null_counterexample:
  "jwt_verify (@)
      (generateToken (@) \<lparr>JWT_SECRET = ''s3'', JWT_EXPIRES_IN = None\<rparr>
         \<lparr>userId = 7, username = ''kader1'', role = ''kader''\<rparr> 0) ''s3'' 86400 = Inl Expired
   \<and> jwt_verify (@) ''garbage'' ''s3'' 86400 = Inl Malformed
   \<and> verifyToken (@) \<lparr>JWT_SECRET = ''s3'', JWT_EXPIRES_IN = None\<rparr>
        (generateToken (@) \<lparr>JWT_SECRET = ''s3'', JWT_EXPIRES_IN = None\<rparr>
           \<lparr>userId = 7, username = ''kader1'', role = ''kader''\<rparr> 0) 86400
      = verifyToken (@) \<lparr>JWT_SECRET = ''s3'', JWT_EXPIRES_IN = None\<rparr> ''garbage'' 86400"
proof -
  have m: "verifyToken (@) \<lparr>JWT_SECRET = ''s3'', JWT_EXPIRES_IN = None\<rparr> ''garbage'' 86400 = None"
    by (simp add: verifyToken_def jwt_verify_garbage)
  show ?thesis
    by (simp add: m verifyToken_sign jwt_verify_garbage expiresIn_def)
      (simp add: generateToken_def jwt_verify_sign expiresIn_def)
qed

text \<open>
  C1, amended. The three failure outcomes are told apart by \<^verbatim>\<open>jwt.verify\<close> only,
  and \<^verbatim>\<open>verifyToken\<close> returns \<^verbatim>\<open>null\<close> for each of them. For every token
  string: a wrong segment count or an undecodable body is Malformed for the library and
  \<^verbatim>\<open>null\<close> for \<^verbatim>\<open>verifyToken\<close>; a structurally sound token whose signature does
  not verify is SignatureInvalid and \<^verbatim>\<open>null\<close>; a token with a valid signature whose
  expiry has elapsed is Expired and \<^verbatim>\<open>null\<close>; a sound, rightly signed token that has
  not expired gives its claims. In particular a token issued with a lifetime and
  verified after the lifetime has elapsed is Expired (not SignatureInvalid or
  Malformed) for the library, and \<^verbatim>\<open>null\<close> for \<^verbatim>\<open>verifyToken\<close>. An issued token
  is refused, as SignatureInvalid or Malformed, once its signature segment is replaced
  by any other string, or its body by one whose keyed hash differs; and it is
  SignatureInvalid under a secret whose keyed hash of the signed text differs.
\<close>

theorem verifyToken_null_on_failure:
  "(length (split_dot token) \<noteq> 3 \<longrightarrow>
      jwt_verify H token (JWT_SECRET e) clock = Inl Malformed
      \<and> verifyToken H e token clock = None)
   \<and> (\<forall>header body signature. split_dot token = [header, body, signature] \<longrightarrow>
        (Option.bind (decode_segment body) parse_payload = None \<longrightarrow>
           jwt_verify H token (JWT_SECRET e) clock = Inl Malformed
           \<and> verifyToken H e token clock = None)
        \<and> (\<forall>d. Option.bind (decode_segment body) parse_payload = Some d \<longrightarrow>
             (signature \<noteq> encode_segment (H (JWT_SECRET e) (header @ ''.'' @ body)) \<longrightarrow>
                jwt_verify H token (JWT_SECRET e) clock = Inl SignatureInvalid
                \<and> verifyToken H e token clock = None)
             \<and> (signature = encode_segment (H (JWT_SECRET e) (header @ ''.'' @ body)) \<longrightarrow>
                  (expiry d \<le> clock \<longrightarrow>
                     jwt_verify H token (JWT_SECRET e) clock = Inl Expired
                     \<and> verifyToken H e token clock = None)
                  \<and> (clock < expiry d \<longrightarrow>
                       jwt_verify H token (JWT_SECRET e) clock = Inr d
                       \<and> verifyToken H e token clock = Some d))))
   \<and> (issued + expiresIn e \<le> clock \<longrightarrow>
         jwt_verify H (generateToken H e payload issued) (JWT_SECRET e) clock = Inl Expired
         \<and> verifyToken H e (generateToken H e payload issued) clock = None)
   \<and> (\<forall>header body signature.
         split_dot (generateToken H e payload issued) = [header, body, signature] \<longrightarrow>
         (\<forall>forged. forged \<noteq> signature \<longrightarrow>
            jwt_verify H (header @ ''.'' @ body @ ''.'' @ forged) (JWT_SECRET e) clock
              \<in> {Inl SignatureInvalid, Inl Malformed}
            \<and> verifyToken H e (header @ ''.'' @ body @ ''.'' @ forged) clock = None)
         \<and> (\<forall>body'. H (JWT_SECRET e) (header @ ''.'' @ body')
                       \<noteq> H (JWT_SECRET e) (header @ ''.'' @ body) \<longrightarrow>
              jwt_verify H (header @ ''.'' @ body' @ ''.'' @ signature) (JWT_SECRET e) clock
                \<in> {Inl SignatureInvalid, Inl Malformed}
              \<and> verifyToken H e (header @ ''.'' @ body' @ ''.'' @ signature) clock = None)
         \<and> (\<forall>e'. H (JWT_SECRET e') (header @ ''.'' @ body)
                    \<noteq> H (JWT_SECRET e) (header @ ''.'' @ body) \<longrightarrow>
              jwt_verify H (generateToken H e payload issued) (JWT_SECRET e') clock
                = Inl SignatureInvalid
              \<and> verifyToken H e' (generateToken H e payload issued) clock = None))"
proof (intro conjI)
  show "length (split_dot token) \<noteq> 3 \<longrightarrow>
      jwt_verify H token (JWT_SECRET e) clock = Inl Malformed
      \<and> verifyToken H e token clock = None"
    by (simp add: jwt_verify_count verifyToken_def)
next
  show "\<forall>header body signature. split_dot token = [header, body, signature] \<longrightarrow>
        (Option.bind (decode_segment body) parse_payload = None \<longrightarrow>
           jwt_verify H token (JWT_SECRET e) clock = Inl Malformed
           \<and> verifyToken H e token clock = None)
        \<and> (\<forall>d. Option.bind (decode_segment body) parse_payload = Some d \<longrightarrow>
             (signature \<noteq> encode_segment (H (JWT_SECRET e) (header @ ''.'' @ body)) \<longrightarrow>
                jwt_verify H token (JWT_SECRET e) clock = Inl SignatureInvalid
                \<and> verifyToken H e token clock = None)
             \<and> (signature = encode_segment (H (JWT_SECRET e) (header @ ''.'' @ body)) \<longrightarrow>
                  (expiry d \<le> clock \<longrightarrow>
                     jwt_verify H token (JWT_SECRET e) clock = Inl Expired
                     \<and> verifyToken H e token clock = None)
                  \<and> (clock < expiry d \<longrightarrow>
                       jwt_verify H token (JWT_SECRET e) clock = Inr d
                       \<and> verifyToken H e token clock = Some d)))"
    by (simp add: jwt_verify_three verifyToken_def)
next
  show "issued + expiresIn e \<le> clock \<longrightarrow>
         jwt_verify H (generateToken H e payload issued) (JWT_SECRET e) clock = Inl Expired
         \<and> verifyToken H e (generateToken H e payload issued) clock = None"
    by (simp add: verifyToken_def generateToken_def jwt_verify_sign)
next
  define b where "b = encode_segment (serialize_payload
        \<lparr>userId = userId payload, username = username payload, role = role payload,
         iat = issued, expiry = issued + expiresIn e\<rparr>)"
  define s where "s = encode_segment (H (JWT_SECRET e) (jwt_header @ ''.'' @ b))"
  have seg: "split_dot (generateToken H e payload issued) = [jwt_header, b, s]"
    by (simp add: generateToken_def jwt_sign_segments b_def s_def)
  have hh: "split_dot jwt_header = [jwt_header]"
    unfolding jwt_header_def by (rule split_dot_plain [OF encode_segment_no_dot])
  have bb: "split_dot b = [b]"
    unfolding b_def by (rule split_dot_plain [OF encode_segment_no_dot])
  have ss: "split_dot s = [s]"
    unfolding s_def by (rule split_dot_plain [OF encode_segment_no_dot])
  have pb: "Option.bind (decode_segment b) parse_payload =
      Some \<lparr>userId = userId payload, username = username payload, role = role payload,
         iat = issued, expiry = issued + expiresIn e\<rparr>"
    by (simp add: b_def decode_encode_segment parse_serialize_payload)
  have 1: "jwt_verify H (jwt_header @ ''.'' @ b @ ''.'' @ forged) (JWT_SECRET e) clock
              \<in> {Inl SignatureInvalid, Inl Malformed}
            \<and> verifyToken H e (jwt_header @ ''.'' @ b @ ''.'' @ forged) clock = None"
    if "forged \<noteq> s" for forged
  proof -
    from that have "forged \<noteq> encode_segment (H (JWT_SECRET e) (jwt_header @ ''.'' @ b))"
      by (simp add: s_def)
    from refused_forged_signature [where H = H and secret = "JWT_SECRET e" and clock = clock,
        OF hh bb this]
    show ?thesis by (auto simp: verifyToken_def)
  qed
  have 2: "jwt_verify H (jwt_header @ ''.'' @ body' @ ''.'' @ s) (JWT_SECRET e) clock
                \<in> {Inl SignatureInvalid, Inl Malformed}
              \<and> verifyToken H e (jwt_header @ ''.'' @ body' @ ''.'' @ s) clock = None"
    if "H (JWT_SECRET e) (jwt_header @ ''.'' @ body') \<noteq> H (JWT_SECRET e) (jwt_header @ ''.'' @ b)"
    for body'
  proof -
    from that have "s \<noteq> encode_segment (H (JWT_SECRET e) (jwt_header @ ''.'' @ body'))"
      unfolding s_def using encode_segment_inj by fastforce
    from refused_forged_body [where H = H and secret = "JWT_SECRET e" and b' = body'
        and clock = clock, OF hh ss this] show ?thesis
      by (auto simp: verifyToken_def)
  qed
  have 3: "jwt_verify H (generateToken H e payload issued) (JWT_SECRET e') clock
                = Inl SignatureInvalid
              \<and> verifyToken H e' (generateToken H e payload issued) clock = None"
    if "H (JWT_SECRET e') (jwt_header @ ''.'' @ b) \<noteq> H (JWT_SECRET e) (jwt_header @ ''.'' @ b)"
    for e'
  proof -
    from that have "s \<noteq> encode_segment (H (JWT_SECRET e') (jwt_header @ ''.'' @ b))"
      unfolding s_def using encode_segment_inj by fastforce
    with jwt_verify_three [OF seg, of H "JWT_SECRET e'" clock] pb show ?thesis
      by (simp add: verifyToken_def)
  qed
  show "\<forall>header body signature.
         split_dot (generateToken H e payload issued) = [header, body, signature] \<longrightarrow>
         (\<forall>forged. forged \<noteq> signature \<longrightarrow>
            jwt_verify H (header @ ''.'' @ body @ ''.'' @ forged) (JWT_SECRET e) clock
              \<in> {Inl SignatureInvalid, Inl Malformed}
            \<and> verifyToken H e (header @ ''.'' @ body @ ''.'' @ forged) clock = None)
         \<and> (\<forall>body'. H (JWT_SECRET e) (header @ ''.'' @ body')
                       \<noteq> H (JWT_SECRET e) (header @ ''.'' @ body) \<longrightarrow>
              jwt_verify H (header @ ''.'' @ body' @ ''.'' @ signature) (JWT_SECRET e) clock
                \<in> {Inl SignatureInvalid, Inl Malformed}
              \<and> verifyToken H e (header @ ''.'' @ body' @ ''.'' @ signature) clock = None)
         \<and> (\<forall>e'. H (JWT_SECRET e') (header @ ''.'' @ body)
                    \<noteq> H (JWT_SECRET e) (header @ ''.'' @ body) \<longrightarrow>
              jwt_verify H (generateToken H e payload issued) (JWT_SECRET e') clock
                = Inl SignatureInvalid
              \<and> verifyToken H e' (generateToken H e payload issued) clock = None)"
  proof (intro allI impI)
    fix header body signature
    assume "split_dot (generateToken H e payload issued) = [header, body, signature]"
    with seg have eq: "header = jwt_header" "body = b" "signature = s" by simp_all
    show "(\<forall>forged. forged \<noteq> signature \<longrightarrow>
            jwt_verify H (header @ ''.'' @ body @ ''.'' @ forged) (JWT_SECRET e) clock
              \<in> {Inl SignatureInvalid, Inl Malformed}
            \<and> verifyToken H e (header @ ''.'' @ body @ ''.'' @ forged) clock = None)
         \<and> (\<forall>body'. H (JWT_SECRET e) (header @ ''.'' @ body')
                       \<noteq> H (JWT_SECRET e) (header @ ''.'' @ body) \<longrightarrow>
              jwt_verify H (header @ ''.'' @ body' @ ''.'' @ signature) (JWT_SECRET e) clock
                \<in> {Inl SignatureInvalid, Inl Malformed}
              \<and> verifyToken H e (header @ ''.'' @ body' @ ''.'' @ signature) clock = None)
         \<and> (\<forall>e'. H (JWT_SECRET e') (header @ ''.'' @ body)
                    \<noteq> H (JWT_SECRET e) (header @ ''.'' @ body) \<longrightarrow>
              jwt_verify H (generateToken H e payload issued) (JWT_SECRET e') clock
                = Inl SignatureInvalid
              \<and> verifyToken H e' (generateToken H e payload issued) clock = None)"
      unfolding eq
    proof (intro conjI allI impI)
      fix forged assume "forged \<noteq> s"
      from 1 [OF this]
      show "jwt_verify H (jwt_header @ ''.'' @ b @ ''.'' @ forged) (JWT_SECRET e) clock
              \<in> {Inl SignatureInvalid, Inl Malformed}"
        and "verifyToken H e (jwt_header @ ''.'' @ b @ ''.'' @ forged) clock = None"
        by blast+
    next
      fix body'
      assume "H (JWT_SECRET e) (jwt_header @ ''.'' @ body')
                \<noteq> H (JWT_SECRET e) (jwt_header @ ''.'' @ b)"
      from 2 [OF this]
      show "jwt_verify H (jwt_header @ ''.'' @ body' @ ''.'' @ s) (JWT_SECRET e) clock
                \<in> {Inl SignatureInvalid, Inl Malformed}"
        and "verifyToken H e (jwt_header @ ''.'' @ body' @ ''.'' @ s) clock = None"
        by blast+
    next
      fix e' :: env
      assume "H (JWT_SECRET e') (jwt_header @ ''.'' @ b)
                \<noteq> H (JWT_SECRET e) (jwt_header @ ''.'' @ b)"
      from 3 [OF this]
      show "jwt_verify H (generateToken H e payload issued) (JWT_SECRET e') clock
                = Inl SignatureInvalid"
        and "verifyToken H e' (generateToken H e payload issued) clock = None"
        by blast+
    qed
  qed
qed


theorem verifyToken_null_on_failure_witness:
  "jwt_verify (@) ''garbage'' ''s3'' 2000 = Inl Malformed
   \<and> verifyToken (@) \<lparr>JWT_SECRET = ''s3'', JWT_EXPIRES_IN = None\<rparr> ''garbage'' 2000 = None
   \<and> jwt_verify (@) ''a.b.c'' ''s3'' 2000 = Inl Malformed
   \<and> verifyToken (@) \<lparr>JWT_SECRET = ''s3'', JWT_EXPIRES_IN = None\<rparr> ''a.b.c'' 2000 = None
   \<and> jwt_verify (@)
        (generateToken (@) \<lparr>JWT_SECRET = ''s3'', JWT_EXPIRES_IN = None\<rparr>
           \<lparr>userId = 7, username = ''kader1'', role = ''kader''\<rparr> 0) ''s3'' 86400 = Inl Expired
   \<and> verifyToken (@) \<lparr>JWT_SECRET = ''s3'', JWT_EXPIRES_IN = None\<rparr>
        (generateToken (@) \<lparr>JWT_SECRET = ''s3'', JWT_EXPIRES_IN = None\<rparr>
           \<lparr>userId = 7, username = ''kader1'', role = ''kader''\<rparr> 0) 86400 = None
   \<and> jwt_verify (@)
        (generateToken (@) \<lparr>JWT_SECRET = ''s3'', JWT_EXPIRES_IN = None\<rparr>
           \<lparr>userId = 7, username = ''kader1'', role = ''kader''\<rparr> 0) ''s4'' 2000
       = Inl SignatureInvalid
   \<and> verifyToken (@) \<lparr>JWT_SECRET = ''s4'', JWT_EXPIRES_IN = None\<rparr>
        (generateToken (@) \<lparr>JWT_SECRET = ''s3'', JWT_EXPIRES_IN = None\<rparr>
           \<lparr>userId = 7, username = ''kader1'', role = ''kader''\<rparr> 0) 2000 = None
   \<and> verifyToken (@) \<lparr>JWT_SECRET = ''s3'', JWT_EXPIRES_IN = None\<rparr>
        (jwt_header @ ''.'' @
         encode_segment (serialize_payload
           \<lparr>userId = 7, username = ''kader1'', role = ''kader'', iat = 0, expiry = 86400\<rparr>)
         @ ''.'' @ ''00'') 2000 = None"
proof -
  define E where "E = \<lparr>JWT_SECRET = ''s3'', JWT_EXPIRES_IN = None\<rparr>"
  define E' where "E' = \<lparr>JWT_SECRET = ''s4'', JWT_EXPIRES_IN = None\<rparr>"
  define P where "P = \<lparr>userId = 7, username = ''kader1'', role = ''kader''\<rparr>"
  define B where "B = encode_segment (serialize_payload
           \<lparr>userId = 7, username = ''kader1'', role = ''kader'', iat = 0, expiry = 86400\<rparr>)"
  define S where "S = encode_segment (''s3'' @ jwt_header @ ''.'' @ B)"
  have s3: "JWT_SECRET E = ''s3''" and s4: "JWT_SECRET E' = ''s4''"
    by (simp_all add: E_def E'_def)
  have seg: "split_dot (generateToken (@) E P 0) = [jwt_header, B, S]"
    by (simp add: generateToken_def jwt_sign_segments B_def S_def E_def P_def expiresIn_def)
  note t = verifyToken_null_on_failure [where H = "(@)" and e = E and payload = P and issued = 0]
  have 1: "jwt_verify (@) ''garbage'' ''s3'' 2000 = Inl Malformed
      \<and> verifyToken (@) E ''garbage'' 2000 = None"
    using t [where token = "''garbage''" and clock = 2000, THEN conjunct1]
    by (simp add: s3)
  have 2: "jwt_verify (@) ''a.b.c'' ''s3'' 2000 = Inl Malformed
      \<and> verifyToken (@) E ''a.b.c'' 2000 = None"
    using t [where token = "''a.b.c''" and clock = 2000, THEN conjunct2, THEN conjunct1,
        rule_format, of "''a''" "''b''" "''c''", THEN conjunct1]
    by (simp add: s3)
  have 3: "jwt_verify (@) (generateToken (@) E P 0) ''s3'' 86400 = Inl Expired
      \<and> verifyToken (@) E (generateToken (@) E P 0) 86400 = None"
    using t [where clock = 86400, THEN conjunct2, THEN conjunct2, THEN conjunct1]
    by (simp add: s3 E_def expiresIn_def)
  have 4: "jwt_verify (@) (generateToken (@) E P 0) ''s4'' 2000 = Inl SignatureInvalid
      \<and> verifyToken (@) E' (generateToken (@) E P 0) 2000 = None"
    using t [where clock = 2000, THEN conjunct2, THEN conjunct2, THEN conjunct2, rule_format,
        OF seg, THEN conjunct2, THEN conjunct2, rule_format, of E']
    by (simp add: s3 s4)
  have "''00'' \<noteq> S"
    by (simp add: S_def encode_segment_Cons)
  from t [where clock = 2000, THEN conjunct2, THEN conjunct2, THEN conjunct2, rule_format,
        OF seg, THEN conjunct1, rule_format, OF this]
  have 5: "verifyToken (@) E (jwt_header @ ''.'' @ B @ ''.'' @ ''00'') 2000 = None"
    by simp
  from 1 2 3 4 5 show ?thesis
    unfolding E_def E'_def P_def B_def by blast
qed

text \<open>
  C7. \<^verbatim>\<open>authenticate\<close> decides in this order: a header that is absent or does not
  start with \<open>Bearer \<close> is answered 401; else a remainder that \<^verbatim>\<open>verifyToken\<close>
  rejects, for any reason, is answered 401; else a user id for which the lookup finds no
  row, or a row whose active flag is 0, is answered 401; otherwise the row that was
  looked up (id, username, role) is attached to the request.
\<close>

theorem authenticate_decision:
  "(authHeader = None \<or> (\<exists>h. authHeader = Some h \<and> take 7 h \<noteq> ''Bearer '') \<longrightarrow>
      authenticate H e getUser clock authHeader = Inl (reject 401 ''Access token required''))
   \<and> (\<forall>token. authHeader = Some (''Bearer '' @ token) \<longrightarrow>
        (verifyToken H e token clock = None \<longrightarrow>
           authenticate H e getUser clock authHeader = Inl (reject 401 ''Invalid or expired token''))
        \<and> (\<forall>decoded. verifyToken H e token clock = Some decoded \<longrightarrow>
             (getUser (userId decoded) = None \<longrightarrow>
                authenticate H e getUser clock authHeader
                  = Inl (reject 401 ''User not found or inactive''))
             \<and> (\<forall>row. getUser (userId decoded) = Some row \<longrightarrow>
                  (is_active row = 0 \<longrightarrow>
                     authenticate H e getUser clock authHeader
                       = Inl (reject 401 ''User not found or inactive''))
                  \<and> (is_active row \<noteq> 0 \<longrightarrow>
                       authenticate H e getUser clock authHeader = Inr row))))"
proof (intro conjI impI allI)
  assume "authHeader = None \<or> (\<exists>h. authHeader = Some h \<and> take 7 h \<noteq> ''Bearer '')"
  then show "authenticate H e getUser clock authHeader = Inl (reject 401 ''Access token required'')"
    by (auto simp: authenticate_def)
qed (simp_all add: authenticate_def)


theorem authenticate_decision_witness:
  "authenticate (@) \<lparr>JWT_SECRET = ''s3'', JWT_EXPIRES_IN = None\<rparr>
      (map_of [(7, \<lparr>row_id = 7, row_username = ''kader1'', row_role = ''kader'', is_active = 1\<rparr>)])
      2000 None
     = Inl (reject 401 ''Access token required'')
   \<and> authenticate (@) \<lparr>JWT_SECRET = ''s3'', JWT_EXPIRES_IN = None\<rparr>
      (map_of [(7, \<lparr>row_id = 7, row_username = ''kader1'', row_role = ''kader'', is_active = 1\<rparr>)])
      2000 (Some (''Bearer '' @ ''garbage''))
     = Inl (reject 401 ''Invalid or expired token'')
   \<and> authenticate (@) \<lparr>JWT_SECRET = ''s3'', JWT_EXPIRES_IN = None\<rparr>
      (map_of [(8, \<lparr>row_id = 8, row_username = ''kader2'', row_role = ''kader'', is_active = 1\<rparr>)])
      2000
      (Some (''Bearer '' @ generateToken (@) \<lparr>JWT_SECRET = ''s3'', JWT_EXPIRES_IN = None\<rparr>
               \<lparr>userId = 7, username = ''kader1'', role = ''kader''\<rparr> 1000))
     = Inl (reject 401 ''User not found or inactive'')
   \<and> authenticate (@) \<lparr>JWT_SECRET = ''s3'', JWT_EXPIRES_IN = None\<rparr>
      (map_of [(7, \<lparr>row_id = 7, row_username = ''kader1'', row_role = ''kader'', is_active = 0\<rparr>)])
      2000
      (Some (''Bearer '' @ generateToken (@) \<lparr>JWT_SECRET = ''s3'', JWT_EXPIRES_IN = None\<rparr>
               \<lparr>userId = 7, username = ''kader1'', role = ''kader''\<rparr> 1000))
     = Inl (reject 401 ''User not found or inactive'')
   \<and> authenticate (@) \<lparr>JWT_SECRET = ''s3'', JWT_EXPIRES_IN = None\<rparr>
      (map_of [(7, \<lparr>row_id = 7, row_username = ''kader1'', row_role = ''kader'', is_active = 1\<rparr>)])
      2000
      (Some (''Bearer '' @ generateToken (@) \<lparr>JWT_SECRET = ''s3'', JWT_EXPIRES_IN = None\<rparr>
               \<lparr>userId = 7, username = ''kader1'', role = ''kader''\<rparr> 1000))
     = Inr \<lparr>row_id = 7, row_username = ''kader1'', row_role = ''kader'', is_active = 1\<rparr>"
proof -
  define E where "E = \<lparr>JWT_SECRET = ''s3'', JWT_EXPIRES_IN = None\<rparr>"
  define T where "T = generateToken (@) E \<lparr>userId = 7, username = ''kader1'', role = ''kader''\<rparr> 1000"
  have g: "verifyToken (@) E ''garbage'' 2000 = None"
    by (simp add: verifyToken_def jwt_verify_garbage)
  have v: "verifyToken (@) E T 2000 =
      Some \<lparr>userId = 7, username = ''kader1'', role = ''kader'', iat = 1000, expiry = 87400\<rparr>"
    by (simp add: T_def verifyToken_sign) (simp add: E_def expiresIn_def)
  note d = authenticate_decision [where H = "(@)" and e = E and clock = 2000]
  have 1: "authenticate (@) E
      (map_of [(7, \<lparr>row_id = 7, row_username = ''kader1'', row_role = ''kader'', is_active = 1\<rparr>)])
      2000 None = Inl (reject 401 ''Access token required'')"
    using d [where authHeader = None] by simp
  have 2: "authenticate (@) E
      (map_of [(7, \<lparr>row_id = 7, row_username = ''kader1'', row_role = ''kader'', is_active = 1\<rparr>)])
      2000 (Some (''Bearer '' @ ''garbage'')) = Inl (reject 401 ''Invalid or expired token'')"
    using d [where authHeader = "Some (''Bearer '' @ ''garbage'')", THEN conjunct2, rule_format,
        of "''garbage''", THEN conjunct1] g
    by simp
  have 3: "authenticate (@) E
      (map_of [(8, \<lparr>row_id = 8, row_username = ''kader2'', row_role = ''kader'', is_active = 1\<rparr>)])
      2000 (Some (''Bearer '' @ T)) = Inl (reject 401 ''User not found or inactive'')"
    using d [where authHeader = "Some (''Bearer '' @ T)"
          and getUser = "map_of [(8, \<lparr>row_id = 8, row_username = ''kader2'', row_role = ''kader'', is_active = 1\<rparr>)]",
        THEN conjunct2, rule_format, of T, THEN conjunct2, rule_format, OF refl v, THEN conjunct1]
    by simp
  have 4: "authenticate (@) E
      (map_of [(7, \<lparr>row_id = 7, row_username = ''kader1'', row_role = ''kader'', is_active = 0\<rparr>)])
      2000 (Some (''Bearer '' @ T)) = Inl (reject 401 ''User not found or inactive'')"
    using d [where authHeader = "Some (''Bearer '' @ T)"
          and getUser = "map_of [(7, \<lparr>row_id = 7, row_username = ''kader1'', row_role = ''kader'', is_active = 0\<rparr>)]",
        THEN conjunct2, rule_format, of T, THEN conjunct2, rule_format, OF refl v, THEN conjunct2,
        rule_format, THEN conjunct1]
    by simp
  have 5: "authenticate (@) E
      (map_of [(7, \<lparr>row_id = 7, row_username = ''kader1'', row_role = ''kader'', is_active = 1\<rparr>)])
      2000 (Some (''Bearer '' @ T))
        = Inr \<lparr>row_id = 7, row_username = ''kader1'', row_role = ''kader'', is_active = 1\<rparr>"
    using d [where authHeader = "Some (''Bearer '' @ T)"
          and getUser = "map_of [(7, \<lparr>row_id = 7, row_username = ''kader1'', row_role = ''kader'', is_active = 1\<rparr>)]",
        THEN conjunct2, rule_format, of T, THEN conjunct2, rule_format, OF refl v, THEN conjunct2,
        rule_format, THEN conjunct2]
    by simp
  from 1 2 3 4 5 show ?thesis unfolding T_def E_def by blast
qed




end
